theory Spec2Isabelle
  imports Main
begin

section \<open>Time\<close>

text \<open>
  A calendar date (Python \<open>date\<close>) is the number of its day, a datetime the number of
  microseconds since the same origin; \<open>timedelta\<close> arithmetic is integer arithmetic.
  Python's bounds on the year (1 to 9999, OverflowError outside) are not modelled.
\<close>

type_synonym date = int
type_synonym datetime = int

definition usec_per_day :: int where
  "usec_per_day = 86400000000"

definition usec_per_hour :: int where
  "usec_per_hour = 3600000000"

definition date_of :: "datetime \<Rightarrow> date" where
  \<comment> \<open>\<open>dt.date()\<close>\<close>
  "date_of dt = dt div usec_per_day"

definition hour_of :: "datetime \<Rightarrow> int" where
  \<comment> \<open>\<open>dt.hour\<close>\<close>
  "hour_of dt = (dt mod usec_per_day) div usec_per_hour"

definition combine_min :: "date \<Rightarrow> datetime" where
  \<comment> \<open>\<open>datetime.combine(d, datetime.min.time())\<close>: midnight of day \<open>d\<close>\<close>
  "combine_min d = d * usec_per_day"

definition timedelta_days :: "int \<Rightarrow> int" where
  \<comment> \<open>\<open>timedelta(days=n)\<close>, added to a date\<close>
  "timedelta_days n = n"

text \<open>
  Where the code is handed a \<open>date\<close> by one caller and a \<open>datetime\<close> by another
  (\<open>Todo.due_date\<close> is a datetime, an occurrence date a date), the value carries its
  run-time type. Python refuses to order a date against a datetime with a TypeError.
\<close>

datatype date_or_datetime = ADate date | ADatetime datetime

definition combine_min_of :: "date_or_datetime \<Rightarrow> datetime" where
  \<comment> \<open>\<open>datetime.combine(v, datetime.min.time())\<close>, which reads only the date of a datetime\<close>
  "combine_min_of v = (case v of ADate d \<Rightarrow> combine_min d | ADatetime t \<Rightarrow> combine_min (date_of t))"

definition add_days :: "date_or_datetime \<Rightarrow> int \<Rightarrow> date_or_datetime" where
  \<comment> \<open>\<open>v + timedelta(days=n)\<close>\<close>
  "add_days v n =
     (case v of
        ADate d \<Rightarrow> ADate (d + timedelta_days n)
      | ADatetime t \<Rightarrow> ADatetime (t + timedelta_days n * usec_per_day))"

definition timedelta_minutes :: "int \<Rightarrow> int" where
  \<comment> \<open>\<open>timedelta(minutes=n)\<close>, added to a datetime\<close>
  "timedelta_minutes n = n * 60000000"

section \<open>Errors\<close>

datatype error =
    ValueError string
  | TypeError
  | RRuleError
  | IntegrityError

section \<open>Data model (app/models)\<close>

text \<open>
  One record per table, one list of rows per table, rows in insertion order. Field names
  carry the table's initial because record fields share one name space. \<open>Todo.due_date\<close>
  is a datetime column; a date written to it is read back as that day's midnight.
\<close>

datatype priority = High | Medium | Low

datatype occurrence_status = OccPending | OccCompleted | OccSkipped

datatype reminder_status = RemPending | RemSent | RemSnoozed | RemCancelled

datatype notification_type = REMINDER | DAILY_DIGEST | RECURRING_DUE

record todo =
  t_id :: string
  t_title :: string
  t_description :: "string option"
  t_completed :: bool
  t_user_id :: string
  t_created_at :: datetime
  t_updated_at :: datetime
  t_due_date :: "datetime option"
  t_priority :: "priority option"
  t_is_recurring :: bool
  t_rrule :: "string option"
  t_recurrence_end_date :: "date option"
  t_recurrence_count :: "int option"
  t_occurrences_generated :: int

record tag =
  g_id :: string
  g_user_id :: string
  g_name :: string

record todo_tag =
  tt_todo_id :: string
  tt_tag_id :: string

record occurrence =
  o_id :: string
  o_parent_todo_id :: string
  o_user_id :: string
  o_occurrence_date :: date
  o_status :: occurrence_status
  o_completed_at :: "datetime option"
  o_created_at :: datetime
  o_updated_at :: datetime

record reminder =
  r_id :: string
  r_todo_id :: string
  r_occurrence_id :: "string option"
  r_user_id :: string
  r_fire_at :: datetime
  r_offset_minutes :: "int option"
  r_status :: reminder_status
  r_sent_at :: "datetime option"
  r_snoozed_until :: "datetime option"
  r_created_at :: datetime

record notification =
  n_id :: string
  n_user_id :: string
  n_type :: notification_type
  n_title :: string
  n_body :: "string option"
  n_todo_id :: "string option"
  n_reminder_id :: "string option"
  n_read :: bool
  n_created_at :: datetime

record push_subscription =
  p_id :: string
  p_user_id :: string
  p_endpoint :: string
  p_p256dh_key :: string
  p_auth_key :: string
  p_user_agent :: "string option"
  p_created_at :: datetime
  p_last_used_at :: "datetime option"

record time_of_day =
  hour :: int
  minute :: int

record user_preferences =
  u_id :: string
  u_user_id :: string
  u_timezone :: string
  u_default_reminder_offset :: "int option"
  u_push_enabled :: bool
  u_daily_digest_enabled :: bool
  u_daily_digest_time :: "time_of_day option"

record db =
  todos :: "todo list"
  tags :: "tag list"
  todo_tags :: "todo_tag list"
  todo_occurrences :: "occurrence list"
  reminders :: "reminder list"
  notifications :: "notification list"
  push_subscriptions :: "push_subscription list"
  user_prefs :: "user_preferences list"

text \<open>
  The constraint \<open>uq_occurrence_date\<close> of the occurrence table: no two rows share
  (parent_todo_id, occurrence_date). A commit that would break it raises and changes
  nothing.
\<close>

definition uq_occurrence_date :: "occurrence list \<Rightarrow> bool" where
  "uq_occurrence_date rows = distinct (map (\<lambda>row. (o_parent_todo_id row, o_occurrence_date row)) rows)"

text \<open>
  A reminder may refer to an occurrence (\<open>occurrence_id\<close>) and a notification to a
  reminder (\<open>reminder_id\<close>). What the deletion of a referenced row does depends on the
  schema. The Alembic revision declares these keys with ON DELETE CASCADE and ON DELETE SET
  NULL. The models declare them without a rule, and that is the schema which
  \<open>create_all\<close> builds (development mode, tests): there the commit raises IntegrityError
  where the store enforces foreign keys, and the referring rows stay where it does not.
\<close>

datatype foreign_keys = MigrationKeys | DeclaredKeys | UnenforcedKeys

section \<open>Recurrence evaluator (services/recurrence.py)\<close>

text \<open>
  \<open>rrulestr\<close> and \<open>strftime\<close> belong to libraries outside the repository and are
  parameters of the model. \<open>rrulestr text dtstart\<close> is \<open>None\<close> where the library raises
  and otherwise the sequence of datetimes that iterating the parsed rule yields (the
  library stops at the year 9999 at the latest, so the sequence is a list).
\<close>

type_synonym rrulestr_fn = "string \<Rightarrow> datetime option \<Rightarrow> datetime list option"
type_synonym strftime_fn = "string \<Rightarrow> datetime \<Rightarrow> string"

definition parse_rule ::
  "rrulestr_fn \<Rightarrow> strftime_fn \<Rightarrow> string \<Rightarrow> date_or_datetime \<Rightarrow> datetime list option" where
  \<comment> \<open>the \<open>try: rule = rrulestr(full_rrule) except: rule = rrulestr(rrule_str, dtstart=dtstart)\<close>
      of \<open>generate_occurrences\<close>\<close>
  "parse_rule rrulestr strftime rrule_str start_date =
     (let dtstart = combine_min_of start_date;
          full_rrule = ''DTSTART:'' @ strftime ''%Y%m%dT%H%M%S'' dtstart
                       @ [CHR 0x0A] @ ''RRULE:'' @ rrule_str
      in case rrulestr full_rrule None of
           Some rule \<Rightarrow> Some rule
         | None \<Rightarrow> rrulestr rrule_str (Some dtstart))"

fun collect_window ::
  "date_or_datetime \<Rightarrow> date_or_datetime \<Rightarrow> int \<Rightarrow> datetime list \<Rightarrow> date list
     \<Rightarrow> error + date list" where
  \<comment> \<open>the \<open>for dt in rule\<close> loop of \<open>generate_occurrences\<close>; the last argument is
      \<open>occurrences\<close>. The comparisons of \<open>dt.date()\<close> with a window bound that is a
      datetime raise TypeError\<close>
  "collect_window window_start window_end max_occurrences [] occurrences = Inr occurrences"
| "collect_window window_start window_end max_occurrences (dt # rule) occurrences =
     (case window_end of
        ADatetime _ \<Rightarrow> Inl TypeError
      | ADate we \<Rightarrow>
          if date_of dt > we then Inr occurrences
          else
            (case window_start of
               ADatetime _ \<Rightarrow> Inl TypeError
             | ADate ws \<Rightarrow>
                 let occurrences' =
                       (if date_of dt \<ge> ws then occurrences @ [date_of dt] else occurrences)
                 in if int (length occurrences') \<ge> max_occurrences then Inr occurrences'
                    else collect_window window_start window_end max_occurrences rule occurrences'))"

definition generate_occurrences ::
  "rrulestr_fn \<Rightarrow> strftime_fn \<Rightarrow> string \<Rightarrow> date_or_datetime \<Rightarrow> date_or_datetime option
     \<Rightarrow> date_or_datetime option \<Rightarrow> int option \<Rightarrow> error + date list" where
  \<comment> \<open>an argument \<open>None\<close> is an argument the caller leaves out\<close>
  "generate_occurrences rrulestr strftime rrule_str start_date window_start window_end max_occurrences =
     (let ws = (case window_start of None \<Rightarrow> start_date | Some d \<Rightarrow> d);
          we = (case window_end of None \<Rightarrow> add_days ws 30 | Some d \<Rightarrow> d);
          cap = (case max_occurrences of None \<Rightarrow> 30 | Some n \<Rightarrow> n)
      in case parse_rule rrulestr strftime rrule_str start_date of
           None \<Rightarrow> Inl RRuleError
         | Some rule \<Rightarrow> collect_window ws we cap rule [])"

definition get_next_occurrence ::
  "rrulestr_fn \<Rightarrow> strftime_fn \<Rightarrow> date \<Rightarrow> string \<Rightarrow> date_or_datetime \<Rightarrow> date_or_datetime option
     \<Rightarrow> error + date option" where
  \<comment> \<open>\<open>today\<close> is what \<open>date.today()\<close> returns\<close>
  "get_next_occurrence rrulestr strftime today rrule_str start_date after_date =
     (let after = (case after_date of None \<Rightarrow> ADate today | Some d \<Rightarrow> d)
      in case generate_occurrences rrulestr strftime rrule_str start_date
                (Some after) (Some (add_days after 365)) (Some 1) of
           Inl e \<Rightarrow> Inl e
         | Inr occurrences \<Rightarrow>
             Inr (case occurrences of [] \<Rightarrow> None | d # _ \<Rightarrow> Some d))"

section \<open>Notification service (services/notification.py)\<close>

text \<open>
  Generated identifiers (nanoid) and the clock are arguments: \<open>new_id\<close> is what
  \<open>generate()\<close> returns, taken to be fresh, and \<open>now\<close> is the reading of
  \<open>datetime.now(timezone.utc)\<close>, one reading for each top-level call.
\<close>

definition create_notification ::
  "string \<Rightarrow> datetime \<Rightarrow> string \<Rightarrow> notification_type \<Rightarrow> string \<Rightarrow> string
     \<Rightarrow> string option \<Rightarrow> string option \<Rightarrow> db \<Rightarrow> db \<times> notification" where
  "create_notification new_id now user_id notification_type title body todo_id reminder_id s =
     (let notification =
            \<lparr>n_id = new_id, n_user_id = user_id, n_type = notification_type, n_title = title,
             n_body = Some body, n_todo_id = todo_id, n_reminder_id = reminder_id,
             n_read = False, n_created_at = now\<rparr>
      in (s\<lparr>notifications := notifications s @ [notification]\<rparr>, notification))"

section \<open>Push service (services/push.py)\<close>

record push_settings =
  vapid_public_key :: "string option"
  vapid_private_key :: "string option"
  vapid_claims_email :: "string option"

definition truthy_str :: "string option \<Rightarrow> bool" where
  \<comment> \<open>Python truth of an optional string: neither \<open>None\<close> nor empty\<close>
  "truthy_str v = (case v of None \<Rightarrow> False | Some txt \<Rightarrow> txt \<noteq> [])"

definition is_configured :: "push_settings \<Rightarrow> bool" where
  "is_configured cfg =
     (truthy_str (vapid_public_key cfg) \<and> truthy_str (vapid_private_key cfg)
      \<and> truthy_str (vapid_claims_email cfg))"

record push_payload =
  payload_title :: string
  payload_body :: string
  payload_url :: "string option"
  payload_tag :: "string option"

text \<open>
  What the call of \<open>webpush\<close> (library pywebpush) does is a parameter. In
  \<open>WebPushFailed resp\<close> the argument is the \<open>response\<close> attribute of the
  WebPushException: \<open>None\<close> where there is none, and \<open>Some status_code\<close> for the
  HTTP response of the push service, a \<open>requests.Response\<close>. The truth value of such a
  response is its property \<open>ok\<close>, which is false for a status code from 400 to 599.
\<close>

datatype push_outcome =
    Delivered
  | WebPushFailed "int option"
  | OtherFailure

definition response_truthy :: "int option \<Rightarrow> bool" where
  \<comment> \<open>the test \<open>e.response\<close> of the handler\<close>
  "response_truthy resp =
     (case resp of None \<Rightarrow> False | Some status_code \<Rightarrow> \<not> (400 \<le> status_code \<and> status_code < 600))"

type_synonym webpush_fn = "push_subscription \<Rightarrow> push_payload \<Rightarrow> push_outcome"

definition make_payload :: "string \<Rightarrow> string \<Rightarrow> string option \<Rightarrow> string option \<Rightarrow> push_payload" where
  \<comment> \<open>the dictionary \<open>payload\<close>: \<open>url\<close> and \<open>tag\<close> are entered where they are truthy\<close>
  "make_payload title body url tag =
     \<lparr>payload_title = title, payload_body = body,
      payload_url = (if truthy_str url then url else None),
      payload_tag = (if truthy_str tag then tag else None)\<rparr>"

definition send_push_notification ::
  "push_settings \<Rightarrow> webpush_fn \<Rightarrow> datetime \<Rightarrow> push_subscription \<Rightarrow> string \<Rightarrow> string
     \<Rightarrow> string option \<Rightarrow> string option \<Rightarrow> db \<Rightarrow> db \<times> bool" where
  "send_push_notification cfg webpush now subscription title body url tag s =
     (if \<not> is_configured cfg then (s, False)
      else
        case webpush subscription (make_payload title body url tag) of
          Delivered \<Rightarrow>
            (s\<lparr>push_subscriptions :=
                 map (\<lambda>row. if p_id row = p_id subscription
                            then row\<lparr>p_last_used_at := Some now\<rparr> else row)
                     (push_subscriptions s)\<rparr>, True)
        | WebPushFailed resp \<Rightarrow>
            (if response_truthy resp \<and> resp = Some 410
             then (s\<lparr>push_subscriptions :=
                       filter (\<lambda>row. p_id row \<noteq> p_id subscription) (push_subscriptions s)\<rparr>,
                   False)
             else (s, False))
        | OtherFailure \<Rightarrow> (s, False))"

definition get_user_subscriptions :: "string \<Rightarrow> db \<Rightarrow> push_subscription list" where
  "get_user_subscriptions user_id s = filter (\<lambda>row. p_user_id row = user_id) (push_subscriptions s)"

fun send_each ::
  "push_settings \<Rightarrow> webpush_fn \<Rightarrow> datetime \<Rightarrow> string \<Rightarrow> string \<Rightarrow> string option \<Rightarrow> string option
     \<Rightarrow> push_subscription list \<Rightarrow> db \<Rightarrow> int \<Rightarrow> db \<times> int" where
  \<comment> \<open>the \<open>for subscription in subscriptions\<close> loop of \<open>send_to_user\<close>\<close>
  "send_each cfg webpush now title body url tag [] s success_count = (s, success_count)"
| "send_each cfg webpush now title body url tag (subscription # rest) s success_count =
     (case send_push_notification cfg webpush now subscription title body url tag s of
        (s', sent) \<Rightarrow>
          send_each cfg webpush now title body url tag rest s'
            (if sent then success_count + 1 else success_count))"

definition send_to_user ::
  "push_settings \<Rightarrow> webpush_fn \<Rightarrow> datetime \<Rightarrow> string \<Rightarrow> string \<Rightarrow> string
     \<Rightarrow> string option \<Rightarrow> string option \<Rightarrow> db \<Rightarrow> db \<times> int" where
  "send_to_user cfg webpush now user_id title body url tag s =
     send_each cfg webpush now title body url tag (get_user_subscriptions user_id s) s 0"

section \<open>Reminder service (services/reminder.py)\<close>


definition active :: "reminder \<Rightarrow> bool" where
  \<comment> \<open>\<open>Reminder.status.in_([PENDING, SNOOZED])\<close>\<close>
  "active row = (r_status row = RemPending \<or> r_status row = RemSnoozed)"

definition session_get_todo :: "string \<Rightarrow> db \<Rightarrow> todo option" where
  \<comment> \<open>\<open>session.get(Todo, todo_id)\<close>\<close>
  "session_get_todo todo_id s = find (\<lambda>row. t_id row = todo_id) (todos s)"


definition set_reminder ::
  "string \<Rightarrow> (reminder \<Rightarrow> reminder) \<Rightarrow> db \<Rightarrow> db" where
  \<comment> \<open>\<open>session.add(reminder); session.commit()\<close> after assignments to the row's fields\<close>
  "set_reminder reminder_id upd s =
     s\<lparr>reminders := map (\<lambda>row. if r_id row = reminder_id then upd row else row) (reminders s)\<rparr>"

definition snooze_reminder ::
  "datetime \<Rightarrow> string \<Rightarrow> string \<Rightarrow> int \<Rightarrow> db \<Rightarrow> db \<times> reminder option" where
  "snooze_reminder now user_id reminder_id snooze_minutes s =
     (case find (\<lambda>row. r_id row = reminder_id \<and> r_user_id row = user_id) (reminders s) of
        None \<Rightarrow> (s, None)
      | Some reminder \<Rightarrow>
          let snoozed_until = now + timedelta_minutes snooze_minutes;
              upd = (\<lambda>row. row\<lparr>r_status := RemSnoozed,
                                 r_snoozed_until := Some snoozed_until,
                                 r_fire_at := snoozed_until\<rparr>)
          in (set_reminder (r_id reminder) upd s, Some (upd reminder)))"

definition get_pending_reminders :: "datetime \<Rightarrow> db \<Rightarrow> reminder list" where
  \<comment> \<open>\<open>before\<close> is \<open>now\<close> where the caller leaves it out\<close>
  "get_pending_reminders before s =
     sort_key r_fire_at (filter (\<lambda>row. r_fire_at row \<le> before \<and> active row) (reminders s))"

definition fire_reminder ::
  "push_settings \<Rightarrow> webpush_fn \<Rightarrow> strftime_fn \<Rightarrow> string \<Rightarrow> datetime \<Rightarrow> reminder \<Rightarrow> db
     \<Rightarrow> db \<times> bool" where
  "fire_reminder cfg webpush strftime new_id now reminder s =
     (case session_get_todo (r_todo_id reminder) s of
        None \<Rightarrow>
          (set_reminder (r_id reminder) (\<lambda>row. row\<lparr>r_status := RemCancelled\<rparr>) s, False)
      | Some todo \<Rightarrow>
          let title = ''Reminder: '' @ t_title todo;
              body = (case t_due_date todo of
                        None \<Rightarrow> ''Task reminder''
                      | Some due \<Rightarrow> ''Due: '' @ strftime ''%b %d, %Y'' due);
              s1 = fst (create_notification new_id now (r_user_id reminder) REMINDER title body
                          (Some (t_id todo)) (Some (r_id reminder)) s);
              s2 = fst (send_to_user cfg webpush now (r_user_id reminder) title body
                          (Some (''/todos/'' @ t_id todo)) (Some (''reminder-'' @ r_id reminder)) s1)
          in (set_reminder (r_id reminder)
                (\<lambda>row. row\<lparr>r_status := RemSent, r_sent_at := Some now\<rparr>) s2, True))"

fun fire_each ::
  "push_settings \<Rightarrow> webpush_fn \<Rightarrow> strftime_fn \<Rightarrow> (nat \<Rightarrow> string) \<Rightarrow> datetime \<Rightarrow> nat
     \<Rightarrow> reminder list \<Rightarrow> db \<Rightarrow> int \<Rightarrow> db \<times> int" where
  \<comment> \<open>the \<open>for reminder in reminders\<close> loop of \<open>process_pending_reminders\<close>;
      \<open>gen_id k\<close> is the identifier generated in round \<open>k\<close>\<close>
  "fire_each cfg webpush strftime gen_id now k [] s processed = (s, processed)"
| "fire_each cfg webpush strftime gen_id now k (reminder # rest) s processed =
     (case fire_reminder cfg webpush strftime (gen_id k) now reminder s of
        (s', fired) \<Rightarrow>
          fire_each cfg webpush strftime gen_id now (Suc k) rest s'
            (if fired then processed + 1 else processed))"

definition process_pending_reminders ::
  "push_settings \<Rightarrow> webpush_fn \<Rightarrow> strftime_fn \<Rightarrow> (nat \<Rightarrow> string) \<Rightarrow> datetime \<Rightarrow> db
     \<Rightarrow> db \<times> int" where
  "process_pending_reminders cfg webpush strftime gen_id now s =
     fire_each cfg webpush strftime gen_id now 0 (get_pending_reminders now s) s 0"

section \<open>Todo service (services/todo.py)\<close>

record todo_update =
  \<comment> \<open>\<open>TodoUpdate\<close>; its field \<open>recurrence\<close> is read by none of the functions below\<close>
  upd_title :: "string option"
  upd_description :: "string option"
  upd_completed :: "bool option"
  upd_due_date :: "datetime option"
  upd_priority :: "priority option"
  upd_tag_ids :: "string list option"

definition get_todo_by_id :: "string \<Rightarrow> string \<Rightarrow> db \<Rightarrow> todo option" where
  "get_todo_by_id user_id todo_id s =
     find (\<lambda>row. t_id row = todo_id \<and> t_user_id row = user_id) (todos s)"

definition todo_tag_ids :: "string \<Rightarrow> db \<Rightarrow> string list" where
  \<comment> \<open>\<open>[tt.tag_id for tt in todo.todo_tags]\<close>\<close>
  "todo_tag_ids todo_id s = map tt_tag_id (filter (\<lambda>row. tt_todo_id row = todo_id) (todo_tags s))"

definition assign_tags :: "string \<Rightarrow> string \<Rightarrow> string list \<Rightarrow> db \<Rightarrow> db \<times> (error + unit)" where
  \<comment> \<open>\<open>_assign_tags\<close>; the primary key of \<open>todo_tags\<close> is (todo_id, tag_id)\<close>
  "assign_tags user_id todo_id tag_ids s =
     (let added = map (\<lambda>tag_id. \<lparr>tt_todo_id = todo_id, tt_tag_id = tag_id\<rparr>)
                    (filter (\<lambda>tag_id. find (\<lambda>row. g_id row = tag_id \<and> g_user_id row = user_id) (tags s)
                                       \<noteq> None) tag_ids)
      in if distinct (todo_tags s @ added)
         then (s\<lparr>todo_tags := todo_tags s @ added\<rparr>, Inr ())
         else (s, Inl IntegrityError))"

fun new_occurrences ::
  "(nat \<Rightarrow> string) \<Rightarrow> datetime \<Rightarrow> string \<Rightarrow> string \<Rightarrow> nat \<Rightarrow> date list \<Rightarrow> occurrence list" where
  \<comment> \<open>the rows that the loop of \<open>_generate_occurrences\<close> adds; \<open>gen_id k\<close> is the
      identifier of the \<open>k\<close>-th\<close>
  "new_occurrences gen_id now user_id todo_id k [] = []"
| "new_occurrences gen_id now user_id todo_id k (occ_date # rest) =
     \<lparr>o_id = gen_id k, o_parent_todo_id = todo_id, o_user_id = user_id,
      o_occurrence_date = occ_date, o_status = OccPending, o_completed_at = None,
      o_created_at = now, o_updated_at = now\<rparr>
     # new_occurrences gen_id now user_id todo_id (Suc k) rest"

definition gen_occurrences ::
  "rrulestr_fn \<Rightarrow> strftime_fn \<Rightarrow> (nat \<Rightarrow> string) \<Rightarrow> datetime \<Rightarrow> string \<Rightarrow> string \<Rightarrow> string
     \<Rightarrow> date_or_datetime \<Rightarrow> int option \<Rightarrow> db \<Rightarrow> db \<times> (error + int)" where
  \<comment> \<open>\<open>_generate_occurrences\<close>; \<open>max_occurrences = None\<close> is the default, 30\<close>
  "gen_occurrences rrulestr strftime gen_id now user_id todo_id rrule start_date max_occurrences s =
     (let existing_dates =
            set (map o_occurrence_date
                   (filter (\<lambda>row. o_parent_todo_id row = todo_id) (todo_occurrences s)));
          cap = (case max_occurrences of None \<Rightarrow> 30 | Some n \<Rightarrow> n)
      in case generate_occurrences rrulestr strftime rrule start_date (Some start_date) None
                (Some cap) of
           Inl e \<Rightarrow> (s, Inl e)
         | Inr occurrence_dates \<Rightarrow>
             let fresh = filter (\<lambda>occ_date. occ_date \<notin> existing_dates) occurrence_dates;
                 created = int (length fresh);
                 added = new_occurrences gen_id now user_id todo_id 0 fresh
             in if created > 0
                then if uq_occurrence_date (todo_occurrences s @ added)
                     then (s\<lparr>todo_occurrences := todo_occurrences s @ added,
                              todos := map (\<lambda>row. if t_id row = todo_id
                                                 then row\<lparr>t_occurrences_generated :=
                                                            t_occurrences_generated row + created\<rparr>
                                                 else row) (todos s)\<rparr>,
                           Inr created)
                     else (s, Inl IntegrityError)
                else (s, Inr created))"

definition ensure_future_occurrences ::
  "rrulestr_fn \<Rightarrow> strftime_fn \<Rightarrow> (nat \<Rightarrow> string) \<Rightarrow> datetime \<Rightarrow> date \<Rightarrow> string \<Rightarrow> string
     \<Rightarrow> int option \<Rightarrow> db \<Rightarrow> db \<times> (error + int)" where
  \<comment> \<open>\<open>_ensure_future_occurrences\<close>; \<open>today\<close> is \<open>date.today()\<close>,
      \<open>min_future = None\<close> is the default, 5\<close>
  "ensure_future_occurrences rrulestr strftime gen_id now today user_id todo_id min_future s =
     (let floor_count = (case min_future of None \<Rightarrow> 5 | Some n \<Rightarrow> n)
      in case get_todo_by_id user_id todo_id s of
           None \<Rightarrow> (s, Inr 0)
         | Some todo \<Rightarrow>
             (case t_rrule todo of
                None \<Rightarrow> (s, Inr 0)
              | Some rrule \<Rightarrow>
                  if \<not> t_is_recurring todo \<or> rrule = [] then (s, Inr 0)
                  else
                    let pending_count =
                          filter (\<lambda>row. o_parent_todo_id row = todo_id \<and> o_user_id row = user_id
                                       \<and> o_status row = OccPending \<and> o_occurrence_date row \<ge> today)
                                 (todo_occurrences s)
                    in if int (length pending_count) \<ge> floor_count then (s, Inr 0)
                       else
                         let dates = map o_occurrence_date
                                       (filter (\<lambda>row. o_parent_todo_id row = todo_id)
                                               (todo_occurrences s));
                             start_from =
                               (if dates = [] then map_option ADatetime (t_due_date todo)
                                else Some (ADate (Max (set dates))))
                         in case start_from of
                              None \<Rightarrow> (s, Inr 0)
                            | Some d \<Rightarrow>
                                gen_occurrences rrulestr strftime gen_id now user_id todo_id rrule
                                  (add_days d 1) (Some (floor_count * 2)) s))"

definition get_current_occurrence :: "date \<Rightarrow> string \<Rightarrow> string \<Rightarrow> db \<Rightarrow> occurrence option" where
  "get_current_occurrence today user_id todo_id s =
     (case find (\<lambda>row. o_parent_todo_id row = todo_id \<and> o_user_id row = user_id
                       \<and> o_occurrence_date row = today) (todo_occurrences s) of
        Some today_occurrence \<Rightarrow> Some today_occurrence
      | None \<Rightarrow>
          (case sort_key o_occurrence_date
                  (filter (\<lambda>row. o_parent_todo_id row = todo_id \<and> o_user_id row = user_id
                                \<and> o_status row = OccPending \<and> o_occurrence_date row > today)
                          (todo_occurrences s)) of
             [] \<Rightarrow> None
           | next_occurrence # _ \<Rightarrow> Some next_occurrence))"

definition set_occurrence :: "string \<Rightarrow> (occurrence \<Rightarrow> occurrence) \<Rightarrow> db \<Rightarrow> db" where
  \<comment> \<open>\<open>session.add(occurrence); session.commit()\<close> after assignments to the row's fields\<close>
  "set_occurrence occurrence_id upd s =
     s\<lparr>todo_occurrences :=
         map (\<lambda>row. if o_id row = occurrence_id then upd row else row) (todo_occurrences s)\<rparr>"

definition this_only_todo ::
  "string \<Rightarrow> datetime \<Rightarrow> string \<Rightarrow> todo \<Rightarrow> todo_update \<Rightarrow> occurrence option \<Rightarrow> todo" where
  \<comment> \<open>the \<open>Todo(...)\<close> that \<open>_update_this_only\<close> builds from the merged values\<close>
  "this_only_todo new_id now user_id todo data current_occ =
     (let new_title = (case upd_title data of Some v \<Rightarrow> v | None \<Rightarrow> t_title todo);
          new_description =
            (case upd_description data of Some v \<Rightarrow> Some v | None \<Rightarrow> t_description todo);
          new_priority = (case upd_priority data of Some v \<Rightarrow> Some v | None \<Rightarrow> t_priority todo);
          new_due_date =
            (case upd_due_date data of
               Some v \<Rightarrow> Some v
             | None \<Rightarrow>
                 (case current_occ of
                    Some occ \<Rightarrow> Some (combine_min (o_occurrence_date occ))
                  | None \<Rightarrow> t_due_date todo))
      in \<lparr>t_id = new_id, t_title = new_title, t_description = new_description,
          t_completed = (case upd_completed data of Some v \<Rightarrow> v | None \<Rightarrow> False),
          t_user_id = user_id, t_created_at = now, t_updated_at = now,
          t_due_date = new_due_date, t_priority = new_priority, t_is_recurring = False,
          t_rrule = None, t_recurrence_end_date = None, t_recurrence_count = None,
          t_occurrences_generated = 0\<rparr>)"

definition this_only_tags ::
  "string \<Rightarrow> string \<Rightarrow> todo \<Rightarrow> todo_update \<Rightarrow> db \<Rightarrow> db \<times> (error + unit)" where
  \<comment> \<open>the tags of the new todo: those of the patch, else those of the head\<close>
  "this_only_tags user_id new_id todo data s1 =
     (case upd_tag_ids data of
        Some tag_ids \<Rightarrow> assign_tags user_id new_id tag_ids s1
      | None \<Rightarrow>
          (let existing_tags = todo_tag_ids (t_id todo) s1
           in if existing_tags \<noteq> [] then assign_tags user_id new_id existing_tags s1
              else (s1, Inr ())))"

definition update_this_only ::
  "rrulestr_fn \<Rightarrow> strftime_fn \<Rightarrow> string \<Rightarrow> (nat \<Rightarrow> string) \<Rightarrow> datetime \<Rightarrow> date \<Rightarrow> string
     \<Rightarrow> todo \<Rightarrow> todo_update \<Rightarrow> db \<Rightarrow> db \<times> (error + todo)" where
  \<comment> \<open>\<open>_update_this_only\<close>; \<open>new_id\<close> is the identifier of the new todo, \<open>todo\<close> the
      head as \<open>get_todo_by_id\<close> loaded it\<close>
  "update_this_only rrulestr strftime new_id gen_id now today user_id todo data s =
     (let current_occ = get_current_occurrence today user_id (t_id todo) s;
          new_todo = this_only_todo new_id now user_id todo data current_occ;
          s1 = s\<lparr>todos := todos s @ [new_todo]\<rparr>
      in case this_only_tags user_id new_id todo data s1 of
           (s2, Inl e) \<Rightarrow> (s2, Inl e)
         | (s2, Inr _) \<Rightarrow>
             (case current_occ of
                None \<Rightarrow> (s2, Inr new_todo)
              | Some occ \<Rightarrow>
                  let s3 = set_occurrence (o_id occ)
                             (\<lambda>row. row\<lparr>o_status := OccSkipped, o_updated_at := now\<rparr>) s2
                  in case ensure_future_occurrences rrulestr strftime gen_id now today user_id
                            (t_id todo) None s3 of
                       (s4, Inl e) \<Rightarrow> (s4, Inl e)
                     | (s4, Inr _) \<Rightarrow> (s4, Inr new_todo)))"

definition update_occurrence_status ::
  "datetime \<Rightarrow> string \<Rightarrow> string \<Rightarrow> occurrence_status \<Rightarrow> db \<Rightarrow> db \<times> occurrence option" where
  "update_occurrence_status now user_id occurrence_id new_status s =
     (case find (\<lambda>row. o_id row = occurrence_id \<and> o_user_id row = user_id) (todo_occurrences s) of
        None \<Rightarrow> (s, None)
      | Some occurrence \<Rightarrow>
          let upd = (\<lambda>row. row\<lparr>o_status := new_status, o_updated_at := now,
                                 o_completed_at :=
                                   (if new_status = OccCompleted then Some now
                                    else if new_status = OccPending then None
                                    else o_completed_at row)\<rparr>)
          in (set_occurrence (o_id occurrence) upd s, Some (upd occurrence)))"

definition stop_recurring ::
  "foreign_keys \<Rightarrow> datetime \<Rightarrow> date \<Rightarrow> string \<Rightarrow> string \<Rightarrow> bool \<Rightarrow> db
     \<Rightarrow> db \<times> (error + todo option)" where
  \<comment> \<open>the update of the todo and the deletions are committed together; a commit that
      raises changes nothing\<close>
  "stop_recurring fk now today user_id todo_id keep_pending s =
     (case get_todo_by_id user_id todo_id s of
        None \<Rightarrow> (s, Inr None)
      | Some todo \<Rightarrow>
          if \<not> t_is_recurring todo then (s, Inr (Some todo))
          else
            let upd = (\<lambda>row. row\<lparr>t_is_recurring := False, t_rrule := None,
                                   t_recurrence_end_date := Some today, t_updated_at := now\<rparr>);
                s1 = s\<lparr>todos := map (\<lambda>row. if t_id row = t_id todo then upd row else row) (todos s)\<rparr>;
                doomed = (\<lambda>row. o_parent_todo_id row = todo_id \<and> o_user_id row = user_id
                                \<and> o_status row = OccPending \<and> o_occurrence_date row > today);
                gone = set (map o_id (filter doomed (todo_occurrences s)));
                lost = (\<lambda>row. case r_occurrence_id row of None \<Rightarrow> False | Some i \<Rightarrow> i \<in> gone);
                lost_ids = set (map r_id (filter lost (reminders s)));
                s2 = s1\<lparr>todo_occurrences := filter (\<lambda>row. \<not> doomed row) (todo_occurrences s)\<rparr>
            in if keep_pending then (s1, Inr (Some (upd todo)))
               else
                 (case fk of
                    MigrationKeys \<Rightarrow>
                      (s2\<lparr>reminders := filter (\<lambda>row. \<not> lost row) (reminders s),
                          notifications :=
                            map (\<lambda>row. case n_reminder_id row of
                                         None \<Rightarrow> row
                                       | Some i \<Rightarrow> if i \<in> lost_ids
                                                   then row\<lparr>n_reminder_id := None\<rparr> else row)
                                (notifications s)\<rparr>,
                       Inr (Some (upd todo)))
                  | DeclaredKeys \<Rightarrow>
                      if filter lost (reminders s) = [] then (s2, Inr (Some (upd todo)))
                      else (s, Inl IntegrityError)
                  | UnenforcedKeys \<Rightarrow> (s2, Inr (Some (upd todo)))))"

section \<open>Daily digest service (services/daily_digest.py)\<close>

text \<open>
  The conversion of an instant to a time zone (\<open>ZoneInfo\<close>, \<open>astimezone\<close>) is a
  parameter: \<open>astimezone tz now_utc\<close> is \<open>None\<close> where \<open>ZoneInfo(tz)\<close> raises and
  otherwise the wall-clock datetime of \<open>now_utc\<close> in zone \<open>tz\<close>.
\<close>

type_synonym astimezone_fn = "string \<Rightarrow> datetime \<Rightarrow> datetime option"

definition is_digest_time :: "astimezone_fn \<Rightarrow> user_preferences \<Rightarrow> datetime \<Rightarrow> bool" where
  "is_digest_time astimezone prefs now_utc =
     (case u_daily_digest_time prefs of
        None \<Rightarrow> False
      | Some digest_time \<Rightarrow>
          (case astimezone (u_timezone prefs) now_utc of
             None \<Rightarrow> False
           | Some now_user \<Rightarrow> hour_of now_user = hour digest_time))"

definition already_sent_today :: "date \<Rightarrow> string \<Rightarrow> db \<Rightarrow> bool" where
  \<comment> \<open>\<open>today\<close> is \<open>date.today()\<close>\<close>
  "already_sent_today today user_id s =
     (let today_start = combine_min today
      in find (\<lambda>row. n_user_id row = user_id \<and> n_type row = DAILY_DIGEST
                      \<and> n_created_at row \<ge> today_start) (notifications s) \<noteq> None)"

function str_nat :: "nat \<Rightarrow> string" where
  \<comment> \<open>the decimal digits of a count, as an f-string prints it\<close>
  "str_nat n = (if n < 10 then [char_of (48 + n)]
                else str_nat (n div 10) @ [char_of (48 + n mod 10)])"
  by pat_completeness auto
termination
  by (relation "measure id") auto

fun join_lines :: "string list \<Rightarrow> string" where
  \<comment> \<open>joins \<open>body_parts\<close> with newlines\<close>
  "join_lines [] = []"
| "join_lines [part] = part"
| "join_lines (part # rest) = part @ [CHR 0x0A] @ join_lines rest"

definition bullet :: string where
  \<comment> \<open>U+2022 and a space, in UTF-8\<close>
  "bullet = [CHR 0xE2, CHR 0x80, CHR 0xA2, CHR '' '']"

definition priority_indicator :: "priority option \<Rightarrow> string" where
  \<comment> \<open>a space and the coloured circle U+1F534, U+1F7E1 or U+1F7E2, in UTF-8\<close>
  "priority_indicator pr =
     (case pr of
        None \<Rightarrow> []
      | Some High \<Rightarrow> [CHR '' '', CHR 0xF0, CHR 0x9F, CHR 0x94, CHR 0xB4]
      | Some Medium \<Rightarrow> [CHR '' '', CHR 0xF0, CHR 0x9F, CHR 0x9F, CHR 0xA1]
      | Some Low \<Rightarrow> [CHR '' '', CHR 0xF0, CHR 0x9F, CHR 0x9F, CHR 0xA2])"

definition send_digest :: "string \<Rightarrow> datetime \<Rightarrow> date \<Rightarrow> string \<Rightarrow> string \<Rightarrow> db \<Rightarrow> db \<times> bool" where
  \<comment> \<open>\<open>_send_digest\<close>; the argument \<open>user_timezone\<close> is not read. The query compares
      the datetime column \<open>due_date\<close> with the date \<open>today\<close>, which the store reads as
      that day's midnight\<close>
  "send_digest new_id now today user_id user_timezone s =
     (let regular_todos =
            filter (\<lambda>row. t_user_id row = user_id \<and> t_due_date row = Some (combine_min today)
                         \<and> \<not> t_completed row) (todos s);
          occs = filter (\<lambda>row. o_user_id row = user_id \<and> o_occurrence_date row = today
                               \<and> o_status row = OccPending) (todo_occurrences s);
          recurring_todo_ids = map o_parent_todo_id occs;
          recurring_todos = filter (\<lambda>row. t_id row \<in> set recurring_todo_ids) (todos s);
          total_count = length regular_todos + length recurring_todos;
          body_parts =
            map (\<lambda>row. bullet @ t_title row @ priority_indicator (t_priority row))
                (take 5 regular_todos)
            @ map (\<lambda>row. bullet @ t_title row @ '' (recurring)'') (take 5 recurring_todos);
          remaining = int total_count - int (length body_parts);
          title = (if total_count = 0 then ''Daily Digest: No tasks due today''
                   else ''Daily Digest: '' @ str_nat total_count @ '' task''
                        @ (if total_count \<noteq> 1 then ''s'' else []) @ '' due today'');
          body = (if total_count = 0 then ''You have no tasks due today. Enjoy your day!''
                  else join_lines
                         (body_parts
                          @ (if remaining > 0
                             then [''...and '' @ str_nat (nat remaining) @ '' more''] else [])));
          notification =
            \<lparr>n_id = new_id, n_user_id = user_id, n_type = DAILY_DIGEST, n_title = title,
             n_body = Some body, n_todo_id = None, n_reminder_id = None, n_read = False,
             n_created_at = now\<rparr>
      in (s\<lparr>notifications := notifications s @ [notification]\<rparr>, True))"

fun digest_each ::
  "astimezone_fn \<Rightarrow> (nat \<Rightarrow> string) \<Rightarrow> datetime \<Rightarrow> date \<Rightarrow> nat \<Rightarrow> user_preferences list
     \<Rightarrow> db \<Rightarrow> int \<Rightarrow> db \<times> int" where
  \<comment> \<open>the \<open>for prefs in prefs_list\<close> loop of \<open>process_daily_digests\<close>\<close>
  "digest_each astimezone gen_id now_utc today k [] s sent_count = (s, sent_count)"
| "digest_each astimezone gen_id now_utc today k (prefs # rest) s sent_count =
     (if is_digest_time astimezone prefs now_utc
      then if already_sent_today today (u_user_id prefs) s
           then digest_each astimezone gen_id now_utc today (Suc k) rest s sent_count
           else (case send_digest (gen_id k) now_utc today (u_user_id prefs) (u_timezone prefs) s of
                   (s', sent) \<Rightarrow>
                     digest_each astimezone gen_id now_utc today (Suc k) rest s'
                       (if sent then sent_count + 1 else sent_count))
      else digest_each astimezone gen_id now_utc today (Suc k) rest s sent_count)"

definition process_daily_digests ::
  "astimezone_fn \<Rightarrow> (nat \<Rightarrow> string) \<Rightarrow> datetime \<Rightarrow> date \<Rightarrow> db \<Rightarrow> db \<times> int" where
  "process_daily_digests astimezone gen_id now_utc today s =
     (let prefs_list =
            filter (\<lambda>row. u_daily_digest_enabled row \<and> u_daily_digest_time row \<noteq> None)
                   (user_prefs s)
      in digest_each astimezone gen_id now_utc today 0 prefs_list s 0)"

definition digests_since :: "string \<Rightarrow> datetime \<Rightarrow> db \<Rightarrow> notification list" where
  \<comment> \<open>the rows that the query of \<open>_already_sent_today\<close> selects for a given start instant\<close>
  "digests_since user_id since s =
     filter (\<lambda>row. n_user_id row = user_id \<and> n_type row = DAILY_DIGEST \<and> n_created_at row \<ge> since)
            (notifications s)"

fun digest_ticks ::
  "astimezone_fn \<Rightarrow> (nat \<Rightarrow> nat \<Rightarrow> string) \<Rightarrow> date \<Rightarrow> nat \<Rightarrow> datetime list \<Rightarrow> db \<Rightarrow> db" where
  \<comment> \<open>the scheduler running \<open>daily_digest_job\<close> at the given instants, one after the other,
      while \<open>date.today()\<close> is \<open>today\<close>; \<open>ids j\<close> generates the identifiers of run \<open>j\<close>\<close>
  "digest_ticks astimezone ids today j [] s = s"
| "digest_ticks astimezone ids today j (now_utc # later) s =
     digest_ticks astimezone ids today (Suc j) later
       (fst (process_daily_digests astimezone (ids j) now_utc today s))"

definition start_of_local_day :: "int \<Rightarrow> datetime \<Rightarrow> datetime" where
  \<comment> \<open>the instant at which the local calendar day of \<open>now_utc\<close> began, in a zone whose
      clock is \<open>utc_offset\<close> ahead of UTC\<close>
  "start_of_local_day utc_offset now_utc = combine_min (date_of (now_utc + utc_offset)) - utc_offset"

section \<open>Sample data\<close>

text \<open>Concrete library behaviours and rows, used where a statement is run on an input.\<close>

definition sample_strftime :: strftime_fn where
  "sample_strftime fmt dt = ''Mar 01, 2026''"

definition vapid_settings :: push_settings where
  "vapid_settings = \<lparr>vapid_public_key = Some ''BPub'', vapid_private_key = Some ''priv'',
                      vapid_claims_email = Some ''mailto:ops@example.org''\<rparr>"

definition no_vapid_settings :: push_settings where
  "no_vapid_settings = \<lparr>vapid_public_key = None, vapid_private_key = None,
                         vapid_claims_email = None\<rparr>"

definition webpush_ok :: webpush_fn where
  "webpush_ok subscription payload = Delivered"

definition webpush_gone :: webpush_fn where
  \<comment> \<open>the push service answers 410 Gone\<close>
  "webpush_gone subscription payload = WebPushFailed (Some 410)"


definition sample_subscription :: push_subscription where
  "sample_subscription =
     \<lparr>p_id = ''sub1'', p_user_id = ''alice'', p_endpoint = ''https://push.example/1'',
      p_p256dh_key = ''k'', p_auth_key = ''a'', p_user_agent = None, p_created_at = 0,
      p_last_used_at = None\<rparr>"

definition sample_todo :: todo where
  "sample_todo =
     \<lparr>t_id = ''todo1'', t_title = ''Pay rent'', t_description = None, t_completed = False,
      t_user_id = ''alice'', t_created_at = 0, t_updated_at = 0,
      t_due_date = Some (combine_min 20513 + 15 * usec_per_hour),
      t_priority = None, t_is_recurring = False, t_rrule = None, t_recurrence_end_date = None,
      t_recurrence_count = None, t_occurrences_generated = 0\<rparr>"

definition sample_reminder :: reminder where
  "sample_reminder =
     \<lparr>r_id = ''rem1'', r_todo_id = ''todo1'', r_occurrence_id = None, r_user_id = ''alice'',
      r_fire_at = 100, r_offset_minutes = None, r_status = RemPending, r_sent_at = None,
      r_snoozed_until = None, r_created_at = 0\<rparr>"

definition empty_db :: db where
  "empty_db = \<lparr>todos = [], tags = [], todo_tags = [], todo_occurrences = [], reminders = [],
                notifications = [], push_subscriptions = [], user_prefs = []\<rparr>"

definition sample_db :: db where
  "sample_db = empty_db\<lparr>todos := [sample_todo], reminders := [sample_reminder],
                         push_subscriptions := [sample_subscription]\<rparr>"




definition sent_db :: db where
  \<comment> \<open>the sample reminder after it was sent\<close>
  "sent_db = sample_db\<lparr>reminders := [sample_reminder\<lparr>r_status := RemSent, r_sent_at := Some 150\<rparr>]\<rparr>"

definition sample_occurrence :: occurrence where
  "sample_occurrence =
     \<lparr>o_id = ''occ1'', o_parent_todo_id = ''todo1'', o_user_id = ''alice'',
      o_occurrence_date = 20513, o_status = OccCompleted, o_completed_at = Some 90,
      o_created_at = 0, o_updated_at = 90\<rparr>"

definition done_db :: db where
  \<comment> \<open>the sample todo with one completed occurrence\<close>
  "done_db = sample_db\<lparr>todo_occurrences := [sample_occurrence]\<rparr>"

definition sample_ids :: "nat \<Rightarrow> string" where
  "sample_ids k = ''id'' @ replicate k (CHR ''x'')"

definition rrulestr_two :: rrulestr_fn where
  \<comment> \<open>a rule with the two occurrences day 10 and day 20, whatever the text\<close>
  "rrulestr_two text dtstart = Some [combine_min 10, combine_min 20]"

definition rrulestr_far :: rrulestr_fn where
  \<comment> \<open>a rule with the two occurrences day 10 and day 740\<close>
  "rrulestr_far text dtstart = Some [combine_min 10, combine_min 740]"

definition series_todo :: todo where
  \<comment> \<open>a daily series owned by alice, anchored at day 20510\<close>
  "series_todo =
     \<lparr>t_id = ''series'', t_title = ''Doctor'', t_description = None, t_completed = False,
      t_user_id = ''alice'', t_created_at = 0, t_updated_at = 0,
      t_due_date = Some (combine_min 20510 + 9 * usec_per_hour),
      t_priority = Some High, t_is_recurring = True, t_rrule = Some ''FREQ=DAILY'',
      t_recurrence_end_date = None, t_recurrence_count = None, t_occurrences_generated = 3\<rparr>"

definition series_occurrence :: "string \<Rightarrow> date \<Rightarrow> occurrence_status \<Rightarrow> occurrence" where
  "series_occurrence i d st =
     \<lparr>o_id = i, o_parent_todo_id = ''series'', o_user_id = ''alice'', o_occurrence_date = d,
      o_status = st, o_completed_at = None, o_created_at = 0, o_updated_at = 0\<rparr>"

definition series_db :: db where
  \<comment> \<open>the series with a completed, a pending and a later pending occurrence\<close>
  "series_db = empty_db\<lparr>todos := [series_todo],
                         todo_occurrences := [series_occurrence ''o1'' 20510 OccCompleted,
                                              series_occurrence ''o2'' 20513 OccPending,
                                              series_occurrence ''o3'' 20514 OccPending]\<rparr>"

definition rrulestr_daily :: rrulestr_fn where
  \<comment> \<open>a daily rule with the four occurrences day 20513 to day 20516\<close>
  "rrulestr_daily text dtstart =
     Some [combine_min 20513, combine_min 20514, combine_min 20515, combine_min 20516]"

definition astimezone_karachi :: astimezone_fn where
  \<comment> \<open>Asia/Karachi is five hours ahead of UTC; no other zone is known\<close>
  "astimezone_karachi tz now_utc =
     (if tz = ''Asia/Karachi'' then Some (now_utc + 5 * usec_per_hour) else None)"

definition karachi_prefs :: user_preferences where
  "karachi_prefs =
     \<lparr>u_id = ''pref1'', u_user_id = ''alice'', u_timezone = ''Asia/Karachi'',
      u_default_reminder_offset = None, u_push_enabled = True, u_daily_digest_enabled = True,
      u_daily_digest_time = Some \<lparr>hour = 8, minute = 0\<rparr>\<rparr>"

definition quiet_db :: db where
  \<comment> \<open>alice wants a digest at 08:00 Karachi time and has no todos\<close>
  "quiet_db = empty_db\<lparr>user_prefs := [karachi_prefs]\<rparr>"

definition early_digest :: notification where
  \<comment> \<open>a digest created on day 9 at 20:00 UTC, which is 01:00 of day 10 in Karachi\<close>
  "early_digest =
     \<lparr>n_id = ''n0'', n_user_id = ''alice'', n_type = DAILY_DIGEST,
      n_title = ''Daily Digest: No tasks due today'',
      n_body = Some ''You have no tasks due today. Enjoy your day!'', n_todo_id = None,
      n_reminder_id = None, n_read = False, n_created_at = combine_min 10 - 4 * usec_per_hour\<rparr>"

definition digested_db :: db where
  "digested_db = quiet_db\<lparr>notifications := [early_digest]\<rparr>"

definition tick_ids :: "nat \<Rightarrow> nat \<Rightarrow> string" where
  "tick_ids j k = ''d'' @ replicate j (CHR ''y'') @ replicate k (CHR ''x'')"

definition empty_patch :: todo_update where
  "empty_patch = \<lparr>upd_title = None, upd_description = None, upd_completed = None,
                   upd_due_date = None, upd_priority = None, upd_tag_ids = None\<rparr>"

definition done_series_db :: db where
  \<comment> \<open>the series head marked completed, without occurrences\<close>
  "done_series_db = empty_db\<lparr>todos := [series_todo\<lparr>t_completed := True\<rparr>]\<rparr>"

definition tagged_series_db :: db where
  \<comment> \<open>the series with its three occurrences and the tag ''work'' of alice\<close>
  "tagged_series_db =
     series_db\<lparr>tags := [\<lparr>g_id = ''work'', g_user_id = ''alice'', g_name = ''Work''\<rparr>],
               todo_tags := [\<lparr>tt_todo_id = ''series'', tt_tag_id = ''work''\<rparr>]\<rparr>"

definition title_patch :: todo_update where
  "title_patch = empty_patch\<lparr>upd_title := Some ''Doctor - rescheduled''\<rparr>"

definition reminded_series_db :: db where
  \<comment> \<open>the series with a reminder for its occurrence of day 20514\<close>
  "reminded_series_db =
     series_db\<lparr>reminders := [sample_reminder\<lparr>r_id := ''rem9'', r_todo_id := ''series'',
                                              r_occurrence_id := Some ''o3''\<rparr>]\<rparr>"

section \<open>The enumeration loop\<close>

lemma date_of_combine_min [simp]: "date_of (combine_min d) = d"
  by (simp add: date_of_def combine_min_def usec_per_day_def)

lemma collect_window_dates:
  "\<exists>ys. collect_window (ADate ws) (ADate we) cap rule acc = Inr (acc @ ys)
         \<and> set ys \<subseteq> date_of ` set rule
         \<and> (\<forall>d \<in> set ys. ws \<le> d \<and> d \<le> we)"
proof (induction rule arbitrary: acc)
  case Nil
  then show ?case by simp
next
  case (Cons dt rule)
  show ?case
  proof (cases "date_of dt > we")
    case True
    then show ?thesis by simp
  next
    case False
    let ?acc' = "if date_of dt \<ge> ws then acc @ [date_of dt] else acc"
    from Cons.IH [of ?acc'] obtain ys where
      ys: "collect_window (ADate ws) (ADate we) cap rule ?acc' = Inr (?acc' @ ys)"
          "set ys \<subseteq> date_of ` set rule" "\<forall>d \<in> set ys. ws \<le> d \<and> d \<le> we"
      by blast
    show ?thesis
    proof (cases "int (length ?acc') \<ge> cap")
      case True
      with False show ?thesis by (auto simp: Let_def)
    next
      case stop: False
      with False ys show ?thesis by (auto simp: Let_def)
    qed
  qed
qed

lemma collect_window_in_window:
  assumes "collect_window (ADate ws) (ADate we) cap rule [] = Inr dates"
  shows "\<forall>d \<in> set dates. ws \<le> d \<and> d \<le> we"
  using collect_window_dates [of ws we cap rule "[]"] assms by auto

lemma collect_window_length:
  assumes "1 \<le> cap" and "int (length acc) < cap"
    and "collect_window (ADate ws) (ADate we) cap rule acc = Inr dates"
  shows "int (length dates) \<le> cap"
  using assms
proof (induction rule arbitrary: acc)
  case Nil
  then show ?case by simp
next
  case (Cons dt rule)
  show ?case
  proof (cases "date_of dt > we")
    case True
    with Cons.prems show ?thesis by simp
  next
    case False
    let ?acc' = "if date_of dt \<ge> ws then acc @ [date_of dt] else acc"
    show ?thesis
    proof (cases "int (length ?acc') \<ge> cap")
      case True
      with False Cons.prems(3) have "dates = ?acc'"
        by (simp add: Let_def)
      with Cons.prems(2) show ?thesis by auto
    next
      case stop: False
      with False Cons.prems(3) have
        "collect_window (ADate ws) (ADate we) cap rule ?acc' = Inr dates"
        by (simp add: Let_def)
      with Cons.IH [of ?acc'] Cons.prems(1) stop show ?thesis by simp
    qed
  qed
qed

lemma collect_window_sorted:
  assumes "sorted (map date_of rule)" and "sorted acc"
    and "\<forall>a \<in> set acc. \<forall>dt \<in> set rule. a \<le> date_of dt"
    and "collect_window (ADate ws) (ADate we) cap rule acc = Inr dates"
  shows "sorted dates"
  using assms
proof (induction rule arbitrary: acc)
  case Nil
  then show ?case by simp
next
  case (Cons dt rule)
  have step: "sorted (acc @ [date_of dt])"
    using Cons.prems by (auto simp: sorted_append)
  have bound: "\<forall>a \<in> set (acc @ [date_of dt]). \<forall>dt' \<in> set rule. a \<le> date_of dt'"
    using Cons.prems by auto
  have tl: "sorted (map date_of rule)"
    using Cons.prems by simp
  have keep: "\<forall>a \<in> set acc. \<forall>dt' \<in> set rule. a \<le> date_of dt'"
    using Cons.prems by auto
  show ?case
    using Cons.IH [OF tl step bound] Cons.IH [OF tl Cons.prems(2) keep] step Cons.prems(2,4)
    by (auto simp: Let_def split: if_splits)
qed

lemma generate_occurrences_parsed:
  assumes "parse_rule rrulestr strftime rrule_str start_date = Some rule"
  shows "generate_occurrences rrulestr strftime rrule_str start_date window_start window_end cap
           = collect_window
               (case window_start of None \<Rightarrow> start_date | Some d \<Rightarrow> d)
               (case window_end of
                  None \<Rightarrow> add_days (case window_start of None \<Rightarrow> start_date | Some d \<Rightarrow> d) 30
                | Some d \<Rightarrow> d)
               (case cap of None \<Rightarrow> 30 | Some n \<Rightarrow> n) rule []"
  using assms by (simp add: generate_occurrences_def Let_def)

text \<open>
  A window bound that is a datetime (a due date handed on as it is stored) makes the
  enumeration raise as soon as the rule yields a datetime to compare.
\<close>

lemma generate_occurrences_datetime_anchor:
  assumes "parse_rule rrulestr strftime rrule_str (ADatetime anchor) = Some (dt # rule)"
  shows "generate_occurrences rrulestr strftime rrule_str (ADatetime anchor) None None cap
           = Inl TypeError"
    and "generate_occurrences rrulestr strftime rrule_str (ADatetime anchor)
           (Some (ADatetime anchor)) None cap = Inl TypeError"
  using assms by (simp_all add: generate_occurrences_def Let_def add_days_def)

text \<open>
  The enumeration for a positive cap and a window given by dates: with a rule that parses
  and yields its datetimes in non-decreasing order, the result is non-decreasing, has at
  most \<open>cap\<close> entries (30 where the caller gives none) and lies in the window, which ends
  30 days after its start where the caller gives no end.
\<close>

lemma generate_occurrences_window:
  assumes parse: "parse_rule rrulestr strftime rrule_str start_date = Some rule"
    and ordered: "sorted (map date_of rule)"
    and cap: "case max_occurrences of None \<Rightarrow> True | Some n \<Rightarrow> 1 \<le> n"
  shows "\<exists>dates.
           generate_occurrences rrulestr strftime rrule_str start_date (Some (ADate ws))
             (map_option ADate window_end) max_occurrences = Inr dates
           \<and> sorted dates
           \<and> int (length dates) \<le> (case max_occurrences of None \<Rightarrow> 30 | Some n \<Rightarrow> n)
           \<and> (\<forall>d \<in> set dates.
                 ws \<le> d \<and> d \<le> (case window_end of None \<Rightarrow> ws + 30 | Some w \<Rightarrow> w))"
proof -
  let ?we = "case window_end of None \<Rightarrow> ws + 30 | Some w \<Rightarrow> w"
  let ?cap = "case max_occurrences of None \<Rightarrow> 30 | Some n \<Rightarrow> n"
  have pos: "1 \<le> ?cap" using cap by (cases max_occurrences) simp_all
  have gen: "generate_occurrences rrulestr strftime rrule_str start_date (Some (ADate ws))
               (map_option ADate window_end) max_occurrences
             = collect_window (ADate ws) (ADate ?we) ?cap rule []"
    unfolding generate_occurrences_parsed [OF parse]
    by (cases window_end) (simp_all add: add_days_def timedelta_days_def)
  from collect_window_dates [of ws ?we ?cap rule "[]"] obtain dates where
    dates: "collect_window (ADate ws) (ADate ?we) ?cap rule [] = Inr dates"
    by auto
  have "sorted dates"
    by (rule collect_window_sorted [OF ordered _ _ dates]) simp_all
  moreover have "int (length dates) \<le> ?cap"
    by (rule collect_window_length [OF pos _ dates]) (use pos in simp)
  moreover have "\<forall>d \<in> set dates. ws \<le> d \<and> d \<le> ?we"
    using dates by (rule collect_window_in_window)
  ultimately show ?thesis
    unfolding gen using dates by simp
qed

text \<open>
  C4. The cap is not kept for a cap of zero: the loop tests the length after it has
  appended, so \<open>max_occurrences = 0\<close> yields one date.
\<close>

theorem generate_occurrences_cap_zero:
  "generate_occurrences rrulestr_two sample_strftime ''FREQ=DAILY;INTERVAL=10;COUNT=2'' (ADate 10)
     None None (Some 0) = Inr [10]"
  by (simp add: generate_occurrences_def parse_rule_def rrulestr_two_def Let_def add_days_def
        timedelta_days_def)

lemma collect_window_first:
  assumes "ws \<le> we"
  shows "collect_window (ADate ws) (ADate we) 1 rule []
           = Inr (case dropWhile (\<lambda>dt. date_of dt < ws) rule of
                    [] \<Rightarrow> []
                  | dt # _ \<Rightarrow> if date_of dt > we then [] else [date_of dt])"
  using assms by (induction rule) (auto simp: Let_def)

text \<open>
  C5 (as stated) fails twice: an occurrence on the reference date itself is returned, and
  an occurrence more than 365 days after the reference date is not found although the rule
  is not exhausted.
\<close>

theorem get_next_occurrence_counterexample:
  "get_next_occurrence rrulestr_two sample_strftime 0 ''FREQ=DAILY;INTERVAL=10;COUNT=2''
     (ADate 10) (Some (ADate 10)) = Inr (Some 10)
   \<and> get_next_occurrence rrulestr_far sample_strftime 0 ''FREQ=YEARLY;INTERVAL=2;COUNT=2''
     (ADate 10) (Some (ADate 11)) = Inr None"
  by (simp add: get_next_occurrence_def generate_occurrences_def parse_rule_def rrulestr_two_def
        rrulestr_far_def Let_def add_days_def timedelta_days_def)

text \<open>
  C5, amended. For a rule that parses and yields its datetimes in non-decreasing order, and
  a reference date on which no occurrence falls: the result is the smallest occurrence
  strictly after the reference date if that occurrence is at most 365 days after the
  reference date, and none otherwise (none does not mean that the rule is exhausted). A
  call without reference date takes today.
\<close>

theorem get_next_occurrence_within_year:
  assumes parse: "parse_rule rrulestr strftime rrule_str start_date = Some rule"
    and ordered: "sorted (map date_of rule)"
    and off: "ref \<notin> date_of ` set rule"
  shows "\<exists>r. get_next_occurrence rrulestr strftime today rrule_str start_date (Some (ADate ref))
                = Inr r
           \<and> (case r of
                None \<Rightarrow> \<not> (\<exists>d \<in> date_of ` set rule. ref < d \<and> d \<le> ref + 365)
              | Some d \<Rightarrow> d \<in> date_of ` set rule \<and> ref < d \<and> d \<le> ref + 365
                          \<and> (\<forall>d' \<in> date_of ` set rule. ref < d' \<longrightarrow> d \<le> d'))
           \<and> get_next_occurrence rrulestr strftime ref rrule_str start_date None = Inr r"
proof -
  let ?P = "\<lambda>dt. date_of dt < ref"
  have split: "rule = takeWhile ?P rule @ dropWhile ?P rule" by simp
  have early: "\<forall>dt \<in> set (takeWhile ?P rule). date_of dt < ref"
    by (auto dest: set_takeWhileD)
  have gen: "generate_occurrences rrulestr strftime rrule_str start_date (Some (ADate ref))
               (Some (add_days (ADate ref) 365)) (Some 1)
             = Inr (case dropWhile ?P rule of
                      [] \<Rightarrow> []
                    | dt # _ \<Rightarrow> if date_of dt > ref + 365 then [] else [date_of dt])"
    unfolding generate_occurrences_parsed [OF parse]
    by (simp add: collect_window_first add_days_def timedelta_days_def)
  show ?thesis
  proof (cases "dropWhile ?P rule")
    case Nil
    with split early have "\<forall>dt \<in> set rule. date_of dt < ref"
      by (metis append_Nil2)
    then have none: "\<not> (\<exists>d \<in> date_of ` set rule. ref < d \<and> d \<le> ref + 365)"
      by auto
    from gen Nil have
      "get_next_occurrence rrulestr strftime today rrule_str start_date (Some (ADate ref))
         = Inr None"
      and "get_next_occurrence rrulestr strftime ref rrule_str start_date None = Inr None"
      by (simp_all add: get_next_occurrence_def)
    with none show ?thesis by simp
  next
    case (Cons dt rest)
    have dt_in: "dt \<in> set rule"
      using Cons by (metis list.set_intros(1) set_dropWhileD)
    have "\<not> date_of dt < ref"
      using Cons by (metis hd_dropWhile list.distinct(1) list.sel(1))
    with off dt_in have after: "ref < date_of dt"
      by (cases "date_of dt = ref") auto
    have "sorted (map date_of (takeWhile ?P rule) @ map date_of (dt # rest))"
      using ordered split Cons by (metis map_append)
    then have later: "\<forall>x \<in> set rest. date_of dt \<le> date_of x"
      by (auto simp: sorted_append)
    have least: "\<forall>d' \<in> date_of ` set rule. ref < d' \<longrightarrow> date_of dt \<le> d'"
    proof (intro ballI impI)
      fix d' assume "d' \<in> date_of ` set rule" and "ref < d'"
      then obtain x where x: "x \<in> set rule" "d' = date_of x" by blast
      from x(1) split Cons have "x \<in> set (takeWhile ?P rule) \<or> x = dt \<or> x \<in> set rest"
        by (metis Un_iff set_append set_ConsD)
      with early later x(2) \<open>ref < d'\<close> show "date_of dt \<le> d'" by auto
    qed
    show ?thesis
    proof (cases "date_of dt > ref + 365")
      case True
      with least have none: "\<not> (\<exists>d \<in> date_of ` set rule. ref < d \<and> d \<le> ref + 365)"
        by fastforce
      from gen Cons True have
        "get_next_occurrence rrulestr strftime today rrule_str start_date (Some (ADate ref))
           = Inr None"
        and "get_next_occurrence rrulestr strftime ref rrule_str start_date None = Inr None"
        by (simp_all add: get_next_occurrence_def)
      with none show ?thesis by simp
    next
      case False
      from gen Cons False have
        "get_next_occurrence rrulestr strftime today rrule_str start_date (Some (ADate ref))
           = Inr (Some (date_of dt))"
        and "get_next_occurrence rrulestr strftime ref rrule_str start_date None
           = Inr (Some (date_of dt))"
        by (simp_all add: get_next_occurrence_def)
      with dt_in after False least show ?thesis by simp
    qed
  qed
qed

theorem get_next_occurrence_within_year_witness:
  "parse_rule rrulestr_two sample_strftime ''FREQ=DAILY;INTERVAL=10;COUNT=2'' (ADate 10)
     = Some [combine_min 10, combine_min 20]
   \<and> sorted (map date_of [combine_min 10, combine_min 20])
   \<and> 11 \<notin> date_of ` set [combine_min 10, combine_min 20]
   \<and> get_next_occurrence rrulestr_two sample_strftime 0 ''FREQ=DAILY;INTERVAL=10;COUNT=2''
       (ADate 10) (Some (ADate 11)) = Inr (Some 20)"
proof -
  have parse: "parse_rule rrulestr_two sample_strftime ''FREQ=DAILY;INTERVAL=10;COUNT=2'' (ADate 10)
     = Some [combine_min 10, combine_min 20]"
    by (simp add: parse_rule_def rrulestr_two_def Let_def)
  have ordered: "sorted (map date_of [combine_min 10, combine_min 20])"
    by simp
  have off: "11 \<notin> date_of ` set [combine_min 10, combine_min 20]"
    by simp
  from get_next_occurrence_within_year [OF parse ordered off, of 0]
  obtain r where r: "get_next_occurrence rrulestr_two sample_strftime 0
                       ''FREQ=DAILY;INTERVAL=10;COUNT=2'' (ADate 10) (Some (ADate 11)) = Inr r"
    and spec: "case r of
                None \<Rightarrow> \<not> (\<exists>d \<in> date_of ` set [combine_min 10, combine_min 20]. 11 < d \<and> d \<le> 11 + 365)
              | Some d \<Rightarrow> d \<in> date_of ` set [combine_min 10, combine_min 20] \<and> 11 < d \<and> d \<le> 11 + 365
                          \<and> (\<forall>d' \<in> date_of ` set [combine_min 10, combine_min 20]. 11 < d' \<longrightarrow> d \<le> d')"
    by blast
  from spec have "r = Some 20"
    by (cases r) auto
  with r parse ordered off show ?thesis by simp
qed

section \<open>Push delivery\<close>

lemma send_push_notification_frame:
  "fst (send_push_notification cfg webpush now subscription title body url tag s)
     = s\<lparr>push_subscriptions :=
           push_subscriptions (fst (send_push_notification cfg webpush now subscription title body url tag s))\<rparr>"
  by (simp add: send_push_notification_def split: push_outcome.splits)

lemma send_each_frame:
  "fst (send_each cfg webpush now title body url tag subs s n)
     = s\<lparr>push_subscriptions :=
           push_subscriptions (fst (send_each cfg webpush now title body url tag subs s n))\<rparr>"
proof (induction subs arbitrary: s n)
  case Nil
  then show ?case by simp
next
  case (Cons subscription rest)
  obtain s' sent where step:
    "send_push_notification cfg webpush now subscription title body url tag s = (s', sent)"
    by (cases "send_push_notification cfg webpush now subscription title body url tag s")
  let ?n' = "if sent then n + 1 else n"
  let ?final = "fst (send_each cfg webpush now title body url tag rest s' ?n')"
  have s': "s' = s\<lparr>push_subscriptions := push_subscriptions s'\<rparr>"
    using send_push_notification_frame [of cfg webpush now subscription title body url tag s] step
    by simp
  have "?final = s'\<lparr>push_subscriptions := push_subscriptions ?final\<rparr>"
    by (rule Cons.IH)
  also have "\<dots> = s\<lparr>push_subscriptions := push_subscriptions ?final\<rparr>"
    by (subst s') simp
  finally show ?case using step by simp
qed

lemma send_to_user_frame:
  "fst (send_to_user cfg webpush now user_id title body url tag s)
     = s\<lparr>push_subscriptions :=
           push_subscriptions (fst (send_to_user cfg webpush now user_id title body url tag s))\<rparr>"
  unfolding send_to_user_def by (rule send_each_frame)

lemma send_push_notification_cases:
  "(\<not> is_configured cfg \<longrightarrow>
      send_push_notification cfg webpush now subscription title body url tag s = (s, False))
   \<and> (is_configured cfg \<and> webpush subscription (make_payload title body url tag) = Delivered \<longrightarrow>
      send_push_notification cfg webpush now subscription title body url tag s
        = (s\<lparr>push_subscriptions :=
               map (\<lambda>row. if p_id row = p_id subscription
                          then row\<lparr>p_last_used_at := Some now\<rparr> else row)
                   (push_subscriptions s)\<rparr>, True))
   \<and> (webpush subscription (make_payload title body url tag) \<noteq> Delivered \<longrightarrow>
      send_push_notification cfg webpush now subscription title body url tag s = (s, False))"
  by (auto simp: send_push_notification_def response_truthy_def split: push_outcome.splits)

text \<open>
  C8. The gone signal does not delete the subscription. When the push service answers 410,
  the exception carries a response whose truth value is false, so the handler's test
  \<open>e.response and e.response.status_code == 410\<close> fails: the send returns false and the
  subscription's row stays in the registry. (Without the VAPID settings and on every other
  failure the send returns false with the store unchanged, and a delivered push stamps
  \<open>last_used_at\<close>, as the lemma above states.)
\<close>

theorem send_push_notification_gone_keeps_row:
  "send_push_notification vapid_settings webpush_gone 7 sample_subscription
     ''Reminder: Pay rent'' ''Task reminder'' None None sample_db = (sample_db, False)"
  by (simp add: send_push_notification_def response_truthy_def is_configured_def truthy_str_def
        vapid_settings_def webpush_gone_def)

section \<open>Firing a reminder\<close>



section \<open>Reminder creation\<close>



section \<open>Status changes\<close>

lemma fire_reminder_reminders:
  "reminders (fst (fire_reminder cfg webpush strftime new_id now reminder s))
     = map (\<lambda>row. if r_id row = r_id reminder
                  then (case session_get_todo (r_todo_id reminder) s of
                          None \<Rightarrow> row\<lparr>r_status := RemCancelled\<rparr>
                        | Some todo \<Rightarrow> row\<lparr>r_status := RemSent, r_sent_at := Some now\<rparr>)
                  else row) (reminders s)"
proof (cases "session_get_todo (r_todo_id reminder) s")
  case None
  then show ?thesis by (simp add: fire_reminder_def set_reminder_def)
next
  case (Some todo)
  define title where "title = ''Reminder: '' @ t_title todo"
  define body where "body = (case t_due_date todo of
                               None \<Rightarrow> ''Task reminder''
                             | Some due \<Rightarrow> ''Due: '' @ strftime ''%b %d, %Y'' due)"
  define s1 where "s1 = fst (create_notification new_id now (r_user_id reminder) REMINDER title body
                               (Some (t_id todo)) (Some (r_id reminder)) s)"
  define s2 where "s2 = fst (send_to_user cfg webpush now (r_user_id reminder) title body
                               (Some (''/todos/'' @ t_id todo)) (Some (''reminder-'' @ r_id reminder)) s1)"
  have result: "fire_reminder cfg webpush strftime new_id now reminder s
                  = (set_reminder (r_id reminder)
                       (\<lambda>row. row\<lparr>r_status := RemSent, r_sent_at := Some now\<rparr>) s2, True)"
    using Some by (simp add: fire_reminder_def Let_def s2_def s1_def title_def body_def)
  have frame: "s2 = s1\<lparr>push_subscriptions := push_subscriptions s2\<rparr>"
    unfolding s2_def by (rule send_to_user_frame)
  have "reminders s2 = reminders s1"
    by (subst frame) simp
  moreover have "reminders s1 = reminders s"
    by (simp add: s1_def create_notification_def Let_def)
  ultimately show ?thesis
    using result Some by (simp add: set_reminder_def)
qed

lemma fire_reminder_occurrences:
  "todo_occurrences (fst (fire_reminder cfg webpush strftime new_id now reminder s))
     = todo_occurrences s"
proof (cases "session_get_todo (r_todo_id reminder) s")
  case None
  then show ?thesis by (simp add: fire_reminder_def set_reminder_def)
next
  case (Some todo)
  define title where "title = ''Reminder: '' @ t_title todo"
  define body where "body = (case t_due_date todo of
                               None \<Rightarrow> ''Task reminder''
                             | Some due \<Rightarrow> ''Due: '' @ strftime ''%b %d, %Y'' due)"
  define s1 where "s1 = fst (create_notification new_id now (r_user_id reminder) REMINDER title body
                               (Some (t_id todo)) (Some (r_id reminder)) s)"
  define s2 where "s2 = fst (send_to_user cfg webpush now (r_user_id reminder) title body
                               (Some (''/todos/'' @ t_id todo)) (Some (''reminder-'' @ r_id reminder)) s1)"
  have result: "fire_reminder cfg webpush strftime new_id now reminder s
                  = (set_reminder (r_id reminder)
                       (\<lambda>row. row\<lparr>r_status := RemSent, r_sent_at := Some now\<rparr>) s2, True)"
    using Some by (simp add: fire_reminder_def Let_def s2_def s1_def title_def body_def)
  have frame: "s2 = s1\<lparr>push_subscriptions := push_subscriptions s2\<rparr>"
    unfolding s2_def by (rule send_to_user_frame)
  have "todo_occurrences s2 = todo_occurrences s1"
    by (subst frame) simp
  moreover have "todo_occurrences s1 = todo_occurrences s"
    by (simp add: s1_def create_notification_def Let_def)
  ultimately show ?thesis
    using result by (simp add: set_reminder_def)
qed

lemma fire_reminder_ids:
  "map r_id (reminders (fst (fire_reminder cfg webpush strftime new_id now reminder s)))
     = map r_id (reminders s)"
  unfolding fire_reminder_reminders by (simp split: option.splits)

lemma fire_reminder_other_rows:
  assumes "row \<in> set (reminders s)" and "r_id row \<noteq> r_id reminder"
  shows "row \<in> set (reminders (fst (fire_reminder cfg webpush strftime new_id now reminder s)))"
  unfolding fire_reminder_reminders using assms by (auto simp: image_iff intro!: bexI [of _ row])

lemma fire_each_other_rows:
  assumes "row \<in> set (reminders s)" and "r_id row \<notin> r_id ` set rs"
  shows "row \<in> set (reminders (fst (fire_each cfg webpush strftime gen_id now k rs s n)))"
  using assms
proof (induction rs arbitrary: s k n)
  case Nil
  then show ?case by simp
next
  case (Cons reminder rest)
  obtain s' fired where step:
    "fire_reminder cfg webpush strftime (gen_id k) now reminder s = (s', fired)"
    by (cases "fire_reminder cfg webpush strftime (gen_id k) now reminder s")
  have "row \<in> set (reminders s')"
    using fire_reminder_other_rows [of row s reminder cfg webpush strftime "gen_id k" now]
      Cons.prems step by simp
  moreover have "r_id row \<notin> r_id ` set rest"
    using Cons.prems by simp
  ultimately have "row \<in> set (reminders (fst (fire_each cfg webpush strftime gen_id now (Suc k)
                                 rest s' (if fired then n + 1 else n))))"
    by (rule Cons.IH)
  then show ?case using step by simp
qed

lemma fire_each_ids:
  "map r_id (reminders (fst (fire_each cfg webpush strftime gen_id now k rs s n)))
     = map r_id (reminders s)"
proof (induction rs arbitrary: s k n)
  case Nil
  then show ?case by simp
next
  case (Cons reminder rest)
  obtain s' fired where step:
    "fire_reminder cfg webpush strftime (gen_id k) now reminder s = (s', fired)"
    by (cases "fire_reminder cfg webpush strftime (gen_id k) now reminder s")
  have "map r_id (reminders s') = map r_id (reminders s)"
    using fire_reminder_ids [of cfg webpush strftime "gen_id k" now reminder s] step by simp
  with Cons.IH [of "Suc k" s' "if fired then n + 1 else n"] step show ?case by simp
qed

lemma fire_each_occurrences:
  "todo_occurrences (fst (fire_each cfg webpush strftime gen_id now k rs s n)) = todo_occurrences s"
proof (induction rs arbitrary: s k n)
  case Nil
  then show ?case by simp
next
  case (Cons reminder rest)
  obtain s' fired where step:
    "fire_reminder cfg webpush strftime (gen_id k) now reminder s = (s', fired)"
    by (cases "fire_reminder cfg webpush strftime (gen_id k) now reminder s")
  have "todo_occurrences s' = todo_occurrences s"
    using fire_reminder_occurrences [of cfg webpush strftime "gen_id k" now reminder s] step by simp
  with Cons.IH [of "Suc k" s' "if fired then n + 1 else n"] step show ?case by simp
qed

lemma pending_rows_active:
  "set (get_pending_reminders now s) \<subseteq> {row \<in> set (reminders s). active row}"
  by (auto simp: get_pending_reminders_def)

lemma fire_reminder_notifications:
  "notifications (fst (fire_reminder cfg webpush strftime new_id now reminder s))
     = (case session_get_todo (r_todo_id reminder) s of
          None \<Rightarrow> notifications s
        | Some todo \<Rightarrow>
            notifications s @
            [\<lparr>n_id = new_id, n_user_id = r_user_id reminder, n_type = REMINDER,
              n_title = ''Reminder: '' @ t_title todo,
              n_body = Some (case t_due_date todo of
                               None \<Rightarrow> ''Task reminder''
                             | Some due \<Rightarrow> ''Due: '' @ strftime ''%b %d, %Y'' due),
              n_todo_id = Some (t_id todo), n_reminder_id = Some (r_id reminder),
              n_read = False, n_created_at = now\<rparr>])"
proof (cases "session_get_todo (r_todo_id reminder) s")
  case None
  then show ?thesis by (simp add: fire_reminder_def set_reminder_def)
next
  case (Some todo)
  define title where "title = ''Reminder: '' @ t_title todo"
  define body where "body = (case t_due_date todo of
                               None \<Rightarrow> ''Task reminder''
                             | Some due \<Rightarrow> ''Due: '' @ strftime ''%b %d, %Y'' due)"
  define s1 where "s1 = fst (create_notification new_id now (r_user_id reminder) REMINDER title body
                               (Some (t_id todo)) (Some (r_id reminder)) s)"
  define s2 where "s2 = fst (send_to_user cfg webpush now (r_user_id reminder) title body
                               (Some (''/todos/'' @ t_id todo)) (Some (''reminder-'' @ r_id reminder)) s1)"
  have result: "fire_reminder cfg webpush strftime new_id now reminder s
                  = (set_reminder (r_id reminder)
                       (\<lambda>row. row\<lparr>r_status := RemSent, r_sent_at := Some now\<rparr>) s2, True)"
    using Some by (simp add: fire_reminder_def Let_def s2_def s1_def title_def body_def)
  have frame: "s2 = s1\<lparr>push_subscriptions := push_subscriptions s2\<rparr>"
    unfolding s2_def by (rule send_to_user_frame)
  have "notifications s2 = notifications s1"
    by (subst frame) simp
  moreover have "notifications s1 = notifications s @
          [\<lparr>n_id = new_id, n_user_id = r_user_id reminder, n_type = REMINDER,
            n_title = title, n_body = Some body,
            n_todo_id = Some (t_id todo), n_reminder_id = Some (r_id reminder),
            n_read = False, n_created_at = now\<rparr>]"
    by (simp add: s1_def create_notification_def Let_def)
  ultimately show ?thesis
    using result Some by (simp add: set_reminder_def title_def body_def)
qed

lemma fire_each_step:
  "fire_each cfg webpush strftime gen_id now k (reminder # rest) s processed
     = fire_each cfg webpush strftime gen_id now (Suc k) rest
         (fst (fire_reminder cfg webpush strftime (gen_id k) now reminder s))
         (if snd (fire_reminder cfg webpush strftime (gen_id k) now reminder s)
          then processed + 1 else processed)"
  by (simp split: prod.splits)

text \<open>
  C2 (as stated) fails: snoozing a sent reminder sets it to snoozed, and the dispatcher then
  fires it again; a status update sets a completed occurrence back to pending.
\<close>

theorem terminal_states_counterexample:
  "map r_status (reminders sent_db) = [RemSent]
   \<and> map r_status (reminders (fst (snooze_reminder 300 ''alice'' ''rem1'' 15 sent_db)))
       = [RemSnoozed]
   \<and> length (notifications
        (fst (process_pending_reminders vapid_settings webpush_ok sample_strftime sample_ids
                (300 + timedelta_minutes 15)
                (fst (snooze_reminder 300 ''alice'' ''rem1'' 15 sent_db))))) = 1
   \<and> map o_status (todo_occurrences done_db) = [OccCompleted]
   \<and> map o_status (todo_occurrences
        (fst (update_occurrence_status 300 ''alice'' ''occ1'' OccPending done_db))) = [OccPending]"
proof -
  have snoozed: "fst (snooze_reminder 300 ''alice'' ''rem1'' 15 sent_db)
      = sample_db\<lparr>reminders := [sample_reminder\<lparr>r_status := RemSnoozed, r_sent_at := Some 150,
                     r_snoozed_until := Some (300 + timedelta_minutes 15),
                     r_fire_at := 300 + timedelta_minutes 15\<rparr>]\<rparr>"
    by (simp add: snooze_reminder_def set_reminder_def Let_def sent_db_def sample_db_def
          empty_db_def sample_reminder_def)
  have refired: "length (notifications
        (fst (process_pending_reminders vapid_settings webpush_ok sample_strftime sample_ids
                (300 + timedelta_minutes 15)
                (sample_db\<lparr>reminders := [sample_reminder\<lparr>r_status := RemSnoozed,
                     r_sent_at := Some 150,
                     r_snoozed_until := Some (300 + timedelta_minutes 15),
                     r_fire_at := 300 + timedelta_minutes 15\<rparr>]\<rparr>)))) = 1"
    unfolding process_pending_reminders_def get_pending_reminders_def
    by (simp del: fire_each.simps(2)
          add: fire_each_step fire_reminder_notifications active_def sample_db_def empty_db_def
            sample_reminder_def session_get_todo_def sample_todo_def)
  show ?thesis
    unfolding snoozed using refired
    by (simp add: update_occurrence_status_def set_occurrence_def Let_def sent_db_def
          sample_db_def empty_db_def done_db_def sample_occurrence_def sample_reminder_def)
qed

text \<open>
  C2, amended. The dispatcher preserves the terminal reminder states: with unique reminder
  ids, a tick leaves every reminder that is sent or cancelled exactly as it is, keeps the
  set of reminder ids, and changes no occurrence. Snooze and occurrence status updates
  check no status: snooze sets the caller's reminder to snoozed with the new fire instant,
  and a status update sets the caller's occurrence to the requested status, whatever the
  status was.
\<close>

theorem dispatcher_keeps_terminal_states:
  assumes "distinct (map r_id (reminders s))"
  shows
  "(\<forall>row \<in> set (reminders s). r_status row = RemSent \<or> r_status row = RemCancelled \<longrightarrow>
      row \<in> set (reminders (fst (process_pending_reminders cfg webpush strftime gen_id now s))))
   \<and> map r_id (reminders (fst (process_pending_reminders cfg webpush strftime gen_id now s)))
       = map r_id (reminders s)
   \<and> todo_occurrences (fst (process_pending_reminders cfg webpush strftime gen_id now s))
       = todo_occurrences s
   \<and> (\<forall>reminder.
        find (\<lambda>row. r_id row = reminder_id \<and> r_user_id row = user_id) (reminders s)
          = Some reminder \<longrightarrow>
        snd (snooze_reminder now user_id reminder_id snooze_minutes s)
          = Some (reminder\<lparr>r_status := RemSnoozed,
                           r_snoozed_until := Some (now + timedelta_minutes snooze_minutes),
                           r_fire_at := now + timedelta_minutes snooze_minutes\<rparr>)
        \<and> reminder\<lparr>r_status := RemSnoozed,
                     r_snoozed_until := Some (now + timedelta_minutes snooze_minutes),
                     r_fire_at := now + timedelta_minutes snooze_minutes\<rparr>
            \<in> set (reminders (fst (snooze_reminder now user_id reminder_id snooze_minutes s))))
   \<and> (\<forall>occurrence.
        find (\<lambda>row. o_id row = occurrence_id \<and> o_user_id row = user_id) (todo_occurrences s)
          = Some occurrence \<longrightarrow>
        (\<exists>updated.
           snd (update_occurrence_status now user_id occurrence_id new_status s) = Some updated
           \<and> o_status updated = new_status \<and> o_id updated = o_id occurrence
           \<and> updated \<in> set (todo_occurrences
                               (fst (update_occurrence_status now user_id occurrence_id
                                       new_status s)))))"
proof (intro conjI ballI impI allI)
  fix row
  assume row: "row \<in> set (reminders s)"
    and terminal: "r_status row = RemSent \<or> r_status row = RemCancelled"
  have inj: "inj_on r_id (set (reminders s))"
    using assms by (simp add: distinct_map)
  have "r_id row \<notin> r_id ` set (get_pending_reminders now s)"
  proof
    assume "r_id row \<in> r_id ` set (get_pending_reminders now s)"
    then obtain row' where row': "row' \<in> set (get_pending_reminders now s)" "r_id row = r_id row'"
      by blast
    with pending_rows_active [of now s] have "row' \<in> set (reminders s)" "active row'"
      by auto
    with inj row row'(2) have "row = row'"
      by (auto dest: inj_onD)
    with \<open>active row'\<close> terminal show False
      by (auto simp: active_def)
  qed
  with row show "row \<in> set (reminders (fst (process_pending_reminders cfg webpush strftime gen_id
                                              now s)))"
    unfolding process_pending_reminders_def by (rule fire_each_other_rows)
next
  show "map r_id (reminders (fst (process_pending_reminders cfg webpush strftime gen_id now s)))
       = map r_id (reminders s)"
    unfolding process_pending_reminders_def by (rule fire_each_ids)
next
  show "todo_occurrences (fst (process_pending_reminders cfg webpush strftime gen_id now s))
       = todo_occurrences s"
    unfolding process_pending_reminders_def by (rule fire_each_occurrences)
next
  fix reminder
  assume found: "find (\<lambda>row. r_id row = reminder_id \<and> r_user_id row = user_id) (reminders s)
                   = Some reminder"
  then show "snd (snooze_reminder now user_id reminder_id snooze_minutes s)
          = Some (reminder\<lparr>r_status := RemSnoozed,
                           r_snoozed_until := Some (now + timedelta_minutes snooze_minutes),
                           r_fire_at := now + timedelta_minutes snooze_minutes\<rparr>)"
    by (simp add: snooze_reminder_def Let_def)
  from found have "reminder \<in> set (reminders s)"
    by (auto simp: find_Some_iff)
  then show "reminder\<lparr>r_status := RemSnoozed,
                     r_snoozed_until := Some (now + timedelta_minutes snooze_minutes),
                     r_fire_at := now + timedelta_minutes snooze_minutes\<rparr>
            \<in> set (reminders (fst (snooze_reminder now user_id reminder_id snooze_minutes s)))"
    using found by (auto simp: snooze_reminder_def Let_def set_reminder_def image_iff
                         intro!: bexI [of _ reminder])
next
  fix occurrence
  assume found: "find (\<lambda>row. o_id row = occurrence_id \<and> o_user_id row = user_id)
                   (todo_occurrences s) = Some occurrence"
  then have "occurrence \<in> set (todo_occurrences s)"
    by (auto simp: find_Some_iff)
  then show "\<exists>updated.
           snd (update_occurrence_status now user_id occurrence_id new_status s) = Some updated
           \<and> o_status updated = new_status \<and> o_id updated = o_id occurrence
           \<and> updated \<in> set (todo_occurrences
                               (fst (update_occurrence_status now user_id occurrence_id
                                       new_status s)))"
    using found by (auto simp: update_occurrence_status_def Let_def set_occurrence_def image_iff
                         intro!: bexI [of _ occurrence])
qed

theorem dispatcher_keeps_terminal_states_witness:
  "distinct (map r_id (reminders sent_db))
   \<and> sample_reminder\<lparr>r_status := RemSent, r_sent_at := Some 150\<rparr>
       \<in> set (reminders (fst (process_pending_reminders vapid_settings webpush_ok sample_strftime
                                 sample_ids 400 sent_db)))
   \<and> snd (snooze_reminder 400 ''alice'' ''rem1'' 15 sent_db)
       = Some (sample_reminder\<lparr>r_status := RemSnoozed, r_sent_at := Some 150,
                 r_snoozed_until := Some (400 + timedelta_minutes 15),
                 r_fire_at := 400 + timedelta_minutes 15\<rparr>)
   \<and> (\<exists>updated. snd (update_occurrence_status 400 ''alice'' ''occ1'' OccSkipped done_db)
                    = Some updated \<and> o_status updated = OccSkipped)"
proof -
  have d1: "distinct (map r_id (reminders sent_db))"
    by (simp add: sent_db_def sample_db_def empty_db_def)
  have d2: "distinct (map r_id (reminders done_db))"
    by (simp add: done_db_def sample_db_def empty_db_def)
  have row: "sample_reminder\<lparr>r_status := RemSent, r_sent_at := Some 150\<rparr> \<in> set (reminders sent_db)"
    by (simp add: sent_db_def sample_db_def empty_db_def)
  have found: "find (\<lambda>row. r_id row = ''rem1'' \<and> r_user_id row = ''alice'') (reminders sent_db)
                 = Some (sample_reminder\<lparr>r_status := RemSent, r_sent_at := Some 150\<rparr>)"
    by (simp add: sent_db_def sample_db_def empty_db_def sample_reminder_def)
  have occ: "find (\<lambda>row. o_id row = ''occ1'' \<and> o_user_id row = ''alice'') (todo_occurrences done_db)
               = Some sample_occurrence"
    by (simp add: done_db_def sample_db_def empty_db_def sample_occurrence_def)
  note t1 = dispatcher_keeps_terminal_states [OF d1, where cfg = vapid_settings
              and webpush = webpush_ok and strftime = sample_strftime and gen_id = sample_ids
              and now = 400 and reminder_id = "''rem1''" and user_id = "''alice''"
              and snooze_minutes = 15]
  note t2 = dispatcher_keeps_terminal_states [OF d2, where now = 400
              and occurrence_id = "''occ1''" and user_id = "''alice''" and new_status = OccSkipped]
  have p1: "sample_reminder\<lparr>r_status := RemSent, r_sent_at := Some 150\<rparr>
       \<in> set (reminders (fst (process_pending_reminders vapid_settings webpush_ok sample_strftime
                                 sample_ids 400 sent_db)))"
    using t1 [THEN conjunct1, rule_format, OF row] by simp
  have p2: "snd (snooze_reminder 400 ''alice'' ''rem1'' 15 sent_db)
       = Some (sample_reminder\<lparr>r_status := RemSent, r_sent_at := Some 150\<rparr>
                 \<lparr>r_status := RemSnoozed,
                  r_snoozed_until := Some (400 + timedelta_minutes 15),
                  r_fire_at := 400 + timedelta_minutes 15\<rparr>)"
    using t1 [THEN conjunct2, THEN conjunct2, THEN conjunct2, THEN conjunct1, rule_format,
              OF found] by (rule conjunct1)
  have p3: "\<exists>updated. snd (update_occurrence_status 400 ''alice'' ''occ1'' OccSkipped done_db)
                    = Some updated \<and> o_status updated = OccSkipped"
    using t2 [THEN conjunct2, THEN conjunct2, THEN conjunct2, THEN conjunct2, rule_format,
              OF occ] by blast
  show ?thesis
    using d1 p1 p2 p3 by (simp add: sample_reminder_def)
qed

section \<open>Stopping a series\<close>

lemma find_map_same:
  assumes "\<And>x. P (f x) = P x"
  shows "find P (map f xs) = map_option f (find P xs)"
  using assms by (induction xs) auto

lemma stop_recurring_not_recurring:
  assumes "get_todo_by_id user_id todo_id s = Some todo" and "\<not> t_is_recurring todo"
  shows "stop_recurring fk now today user_id todo_id keep_pending s = (s, Inr (Some todo))"
  using assms by (simp add: stop_recurring_def)

text \<open>
  Where the commit does not raise, stop_recurring does what is expected of it: the todo is
  returned and stored with \<open>is_recurring\<close> false, no rrule and \<open>recurrence_end_date\<close>
  today; with \<open>keep_pending\<close> the occurrences stay, without it exactly the caller's pending
  occurrences of the series dated after today are deleted; and a second call changes
  nothing.
\<close>

lemma stop_recurring_on_commit:
  assumes found: "get_todo_by_id user_id todo_id s = Some todo" and rec: "t_is_recurring todo"
    and ok: "snd (stop_recurring fk now today user_id todo_id keep_pending s) \<noteq> Inl IntegrityError"
  shows
  "snd (stop_recurring fk now today user_id todo_id keep_pending s)
     = Inr (Some (todo\<lparr>t_is_recurring := False, t_rrule := None,
                       t_recurrence_end_date := Some today, t_updated_at := now\<rparr>))
   \<and> get_todo_by_id user_id todo_id (fst (stop_recurring fk now today user_id todo_id keep_pending s))
     = Some (todo\<lparr>t_is_recurring := False, t_rrule := None,
                   t_recurrence_end_date := Some today, t_updated_at := now\<rparr>)
   \<and> (keep_pending \<longrightarrow>
        todo_occurrences (fst (stop_recurring fk now today user_id todo_id keep_pending s))
          = todo_occurrences s)
   \<and> (\<not> keep_pending \<longrightarrow>
        todo_occurrences (fst (stop_recurring fk now today user_id todo_id keep_pending s))
          = filter (\<lambda>row. \<not> (o_parent_todo_id row = todo_id \<and> o_user_id row = user_id
                             \<and> o_status row = OccPending \<and> o_occurrence_date row > today))
                   (todo_occurrences s))
   \<and> stop_recurring fk' now' today' user_id todo_id keep_pending'
        (fst (stop_recurring fk now today user_id todo_id keep_pending s))
      = (fst (stop_recurring fk now today user_id todo_id keep_pending s),
         snd (stop_recurring fk now today user_id todo_id keep_pending s))"
proof -
  let ?upd = "\<lambda>row. row\<lparr>t_is_recurring := False, t_rrule := None,
                         t_recurrence_end_date := Some today, t_updated_at := now\<rparr>"
  let ?s' = "fst (stop_recurring fk now today user_id todo_id keep_pending s)"
  have tid: "t_id todo = todo_id"
    using found by (auto simp: get_todo_by_id_def find_Some_iff)
  have res: "snd (stop_recurring fk now today user_id todo_id keep_pending s) = Inr (Some (?upd todo))"
    using found rec ok
    by (cases fk) (auto simp: stop_recurring_def Let_def split: if_splits)
  have todos': "todos ?s' = map (\<lambda>row. if t_id row = todo_id then ?upd row else row) (todos s)"
    using found rec tid ok
    by (cases fk) (auto simp: stop_recurring_def Let_def split: if_splits)
  have "find (\<lambda>row. t_id row = todo_id \<and> t_user_id row = user_id)
          (map (\<lambda>row. if t_id row = todo_id then ?upd row else row) (todos s))
        = map_option (\<lambda>row. if t_id row = todo_id then ?upd row else row)
            (find (\<lambda>row. t_id row = todo_id \<and> t_user_id row = user_id) (todos s))"
    by (rule find_map_same) simp
  with found tid have again: "get_todo_by_id user_id todo_id ?s' = Some (?upd todo)"
    by (simp add: get_todo_by_id_def todos')
  have kept: "keep_pending \<longrightarrow> todo_occurrences ?s' = todo_occurrences s"
    using found rec by (simp add: stop_recurring_def Let_def)
  have removed: "\<not> keep_pending \<longrightarrow> todo_occurrences ?s'
          = filter (\<lambda>row. \<not> (o_parent_todo_id row = todo_id \<and> o_user_id row = user_id
                             \<and> o_status row = OccPending \<and> o_occurrence_date row > today))
                   (todo_occurrences s)"
    using found rec ok
    by (cases fk) (auto simp: stop_recurring_def Let_def split: if_splits)
  have "\<not> t_is_recurring (?upd todo)" by simp
  with again have "stop_recurring fk' now' today' user_id todo_id keep_pending' ?s'
                     = (?s', Inr (Some (?upd todo)))"
    by (rule stop_recurring_not_recurring)
  with res again kept removed show ?thesis
    by simp
qed

text \<open>
  C10. Under the foreign keys as the models declare them, on a store that enforces them,
  stop_recurring without \<open>keep_pending\<close> fails when a reminder refers to a pending future
  occurrence of the series: deleting the occurrence breaks the reminder's key, the commit
  raises IntegrityError, and the todo stays recurring with all its occurrences.
\<close>

theorem stop_recurring_blocked_by_reminder:
  "stop_recurring DeclaredKeys 900 20513 ''alice'' ''series'' False reminded_series_db
     = (reminded_series_db, Inl IntegrityError)"
  by (simp add: stop_recurring_def get_todo_by_id_def Let_def reminded_series_db_def
        series_db_def empty_db_def series_todo_def series_occurrence_def sample_reminder_def)

section \<open>Topping up occurrences\<close>

lemma new_occurrences_dates:
  "map o_occurrence_date (new_occurrences gen_id now user_id todo_id k ds) = ds"
  by (induction ds arbitrary: k) simp_all

lemma new_occurrences_parent:
  "filter (\<lambda>row. o_parent_todo_id row = todo_id) (new_occurrences gen_id now user_id todo_id k ds)
     = new_occurrences gen_id now user_id todo_id k ds"
  by (induction ds arbitrary: k) simp_all

lemma gen_occurrences_unchanged:
  assumes "generate_occurrences rrulestr strftime rrule start_date (Some start_date) None
             (Some (case max_occurrences of None \<Rightarrow> 30 | Some n \<Rightarrow> n)) = Inr dates"
    and "set dates \<subseteq> set (map o_occurrence_date
                           (filter (\<lambda>row. o_parent_todo_id row = todo_id) (todo_occurrences s)))"
  shows "gen_occurrences rrulestr strftime gen_id now user_id todo_id rrule start_date
           max_occurrences s = (s, Inr 0)"
proof -
  have "filter (\<lambda>d. d \<notin> set (map o_occurrence_date
                   (filter (\<lambda>row. o_parent_todo_id row = todo_id) (todo_occurrences s)))) dates = []"
    using assms(2) by (auto simp: filter_empty_conv)
  with assms(1) show ?thesis
    by (simp add: gen_occurrences_def Let_def)
qed

text \<open>
  C3. On a store that satisfies the uniqueness constraint on (parent todo, date), a top-up
  either raises and changes nothing, or appends one pending occurrence for each enumerated
  date that the series did not have (dates already present are skipped), and the store
  satisfies the constraint afterwards; a second top-up of the same series and window
  right after it creates nothing and leaves the store as it is.
\<close>

theorem gen_occurrences_idempotent:
  assumes "uq_occurrence_date (todo_occurrences s)"
  shows
  "uq_occurrence_date (todo_occurrences
       (fst (gen_occurrences rrulestr strftime gen_id now user_id todo_id rrule start_date
               max_occurrences s)))
   \<and> (\<forall>e. snd (gen_occurrences rrulestr strftime gen_id now user_id todo_id rrule start_date
                  max_occurrences s) = Inl e \<longrightarrow>
          fst (gen_occurrences rrulestr strftime gen_id now user_id todo_id rrule start_date
                 max_occurrences s) = s)
   \<and> (\<forall>created.
        snd (gen_occurrences rrulestr strftime gen_id now user_id todo_id rrule start_date
               max_occurrences s) = Inr created \<longrightarrow>
        (\<exists>dates.
           generate_occurrences rrulestr strftime rrule start_date (Some start_date) None
             (Some (case max_occurrences of None \<Rightarrow> 30 | Some n \<Rightarrow> n)) = Inr dates
           \<and> todo_occurrences
               (fst (gen_occurrences rrulestr strftime gen_id now user_id todo_id rrule start_date
                       max_occurrences s))
             = todo_occurrences s @
               new_occurrences gen_id now user_id todo_id 0
                 (filter (\<lambda>d. d \<notin> set (map o_occurrence_date
                                          (filter (\<lambda>row. o_parent_todo_id row = todo_id)
                                                  (todo_occurrences s))))
                         dates)
           \<and> created
             = int (length (filter (\<lambda>d. d \<notin> set (map o_occurrence_date
                                          (filter (\<lambda>row. o_parent_todo_id row = todo_id)
                                                  (todo_occurrences s))))
                         dates)))
        \<and> gen_occurrences rrulestr strftime gen_id' now' user_id todo_id rrule start_date
            max_occurrences
            (fst (gen_occurrences rrulestr strftime gen_id now user_id todo_id rrule start_date
                    max_occurrences s))
          = (fst (gen_occurrences rrulestr strftime gen_id now user_id todo_id rrule start_date
                    max_occurrences s), Inr 0))"
proof (intro conjI allI impI)
  show "uq_occurrence_date (todo_occurrences
       (fst (gen_occurrences rrulestr strftime gen_id now user_id todo_id rrule start_date
               max_occurrences s)))"
    using assms by (simp add: gen_occurrences_def Let_def split: sum.splits)
next
  fix e
  assume "snd (gen_occurrences rrulestr strftime gen_id now user_id todo_id rrule start_date
                  max_occurrences s) = Inl e"
  then show "fst (gen_occurrences rrulestr strftime gen_id now user_id todo_id rrule start_date
                 max_occurrences s) = s"
    by (simp add: gen_occurrences_def Let_def split: sum.splits if_splits)
next
  fix created
  assume ok: "snd (gen_occurrences rrulestr strftime gen_id now user_id todo_id rrule start_date
               max_occurrences s) = Inr created"
  let ?s' = "fst (gen_occurrences rrulestr strftime gen_id now user_id todo_id rrule start_date
                    max_occurrences s)"
  let ?cap = "case max_occurrences of None \<Rightarrow> 30 | Some n \<Rightarrow> n"
  let ?had = "set (map o_occurrence_date
                    (filter (\<lambda>row. o_parent_todo_id row = todo_id) (todo_occurrences s)))"
  from ok obtain dates where dates:
    "generate_occurrences rrulestr strftime rrule start_date (Some start_date) None (Some ?cap)
       = Inr dates"
    by (cases "generate_occurrences rrulestr strftime rrule start_date (Some start_date) None
                 (Some ?cap)") (simp_all add: gen_occurrences_def Let_def)
  let ?fresh = "filter (\<lambda>d. d \<notin> ?had) dates"
  have rows: "todo_occurrences ?s'
                = todo_occurrences s @ new_occurrences gen_id now user_id todo_id 0 ?fresh"
    and count: "created = int (length ?fresh)"
    using ok dates by (auto simp: gen_occurrences_def Let_def split: if_splits)
  show "\<exists>dates.
           generate_occurrences rrulestr strftime rrule start_date (Some start_date) None
             (Some (case max_occurrences of None \<Rightarrow> 30 | Some n \<Rightarrow> n)) = Inr dates
           \<and> todo_occurrences ?s'
             = todo_occurrences s @
               new_occurrences gen_id now user_id todo_id 0
                 (filter (\<lambda>d. d \<notin> set (map o_occurrence_date
                                          (filter (\<lambda>row. o_parent_todo_id row = todo_id)
                                                  (todo_occurrences s))))
                         dates)
           \<and> created
             = int (length (filter (\<lambda>d. d \<notin> set (map o_occurrence_date
                                          (filter (\<lambda>row. o_parent_todo_id row = todo_id)
                                                  (todo_occurrences s))))
                         dates))"
    using dates rows count by blast
  have "map o_occurrence_date (filter (\<lambda>row. o_parent_todo_id row = todo_id) (todo_occurrences ?s'))
          = map o_occurrence_date (filter (\<lambda>row. o_parent_todo_id row = todo_id) (todo_occurrences s))
            @ ?fresh"
    unfolding rows by (simp add: new_occurrences_parent new_occurrences_dates)
  then have "set dates \<subseteq> set (map o_occurrence_date
                           (filter (\<lambda>row. o_parent_todo_id row = todo_id) (todo_occurrences ?s')))"
    by auto
  with dates show "gen_occurrences rrulestr strftime gen_id' now' user_id todo_id rrule start_date
            max_occurrences ?s' = (?s', Inr 0)"
    by (rule gen_occurrences_unchanged)
qed
theorem gen_occurrences_idempotent_witness:
  "uq_occurrence_date (todo_occurrences series_db)
   \<and> snd (gen_occurrences rrulestr_daily sample_strftime sample_ids 900 ''alice'' ''series''
             ''FREQ=DAILY'' (ADate 20513) None series_db) = Inr 2
   \<and> map o_occurrence_date (todo_occurrences
        (fst (gen_occurrences rrulestr_daily sample_strftime sample_ids 900 ''alice'' ''series''
                ''FREQ=DAILY'' (ADate 20513) None series_db)))
       = [20510, 20513, 20514, 20515, 20516]
   \<and> gen_occurrences rrulestr_daily sample_strftime sample_ids 950 ''alice'' ''series''
        ''FREQ=DAILY'' (ADate 20513) None
        (fst (gen_occurrences rrulestr_daily sample_strftime sample_ids 900 ''alice'' ''series''
                ''FREQ=DAILY'' (ADate 20513) None series_db))
       = (fst (gen_occurrences rrulestr_daily sample_strftime sample_ids 900 ''alice'' ''series''
                ''FREQ=DAILY'' (ADate 20513) None series_db), Inr 0)"
proof -
  have uq: "uq_occurrence_date (todo_occurrences series_db)"
    by (simp add: uq_occurrence_date_def series_db_def empty_db_def series_occurrence_def)
  have dates: "generate_occurrences rrulestr_daily sample_strftime ''FREQ=DAILY'' (ADate 20513)
                 (Some (ADate 20513)) None (Some 30) = Inr [20513, 20514, 20515, 20516]"
    by (simp add: generate_occurrences_def parse_rule_def rrulestr_daily_def Let_def
          add_days_def timedelta_days_def)
  have created: "snd (gen_occurrences rrulestr_daily sample_strftime sample_ids 900 ''alice''
                        ''series'' ''FREQ=DAILY'' (ADate 20513) None series_db) = Inr 2"
    by (simp add: gen_occurrences_def dates Let_def uq_occurrence_date_def series_db_def
          empty_db_def series_occurrence_def)
  note t = gen_occurrences_idempotent [OF uq, where rrulestr = rrulestr_daily
             and strftime = sample_strftime and gen_id = sample_ids and now = 900
             and user_id = "''alice''" and todo_id = "''series''" and rrule = "''FREQ=DAILY''"
             and start_date = "ADate 20513" and max_occurrences = None,
             THEN conjunct2, THEN conjunct2, rule_format, OF created]
  from t obtain ds where ds:
    "generate_occurrences rrulestr_daily sample_strftime ''FREQ=DAILY'' (ADate 20513)
       (Some (ADate 20513)) None (Some (case None of None \<Rightarrow> 30 | Some n \<Rightarrow> n)) = Inr ds"
    "todo_occurrences
       (fst (gen_occurrences rrulestr_daily sample_strftime sample_ids 900 ''alice'' ''series''
               ''FREQ=DAILY'' (ADate 20513) None series_db))
     = todo_occurrences series_db @
       new_occurrences sample_ids 900 ''alice'' ''series'' 0
         (filter (\<lambda>d. d \<notin> set (map o_occurrence_date
                                  (filter (\<lambda>row. o_parent_todo_id row = ''series'')
                                          (todo_occurrences series_db))))
                 ds)"
    by blast
  from ds(1) dates have "ds = [20513, 20514, 20515, 20516]"
    by simp
  then have rows: "map o_occurrence_date (todo_occurrences
        (fst (gen_occurrences rrulestr_daily sample_strftime sample_ids 900 ''alice'' ''series''
                ''FREQ=DAILY'' (ADate 20513) None series_db)))
       = [20510, 20513, 20514, 20515, 20516]"
    unfolding ds(2)
    by (simp add: new_occurrences_dates series_db_def empty_db_def series_occurrence_def)
  have again: "gen_occurrences rrulestr_daily sample_strftime sample_ids 950 ''alice'' ''series''
        ''FREQ=DAILY'' (ADate 20513) None
        (fst (gen_occurrences rrulestr_daily sample_strftime sample_ids 900 ''alice'' ''series''
                ''FREQ=DAILY'' (ADate 20513) None series_db))
       = (fst (gen_occurrences rrulestr_daily sample_strftime sample_ids 900 ''alice'' ''series''
                ''FREQ=DAILY'' (ADate 20513) None series_db), Inr 0)"
    using t [where gen_id' = sample_ids and now' = 950] by (rule conjunct2)
  from uq created rows again show ?thesis
    by (intro conjI)
qed

section \<open>Daily digest\<close>

lemma send_digest_adds:
  "\<exists>row. notifications (fst (send_digest new_id now today user_id tz s)) = notifications s @ [row]
         \<and> n_user_id row = user_id \<and> n_type row = DAILY_DIGEST \<and> n_created_at row = now"
  by (simp add: send_digest_def Let_def)

lemma send_digest_sent: "snd (send_digest new_id now today user_id tz s)"
  by (simp add: send_digest_def Let_def)

lemma already_sent_today_iff:
  "already_sent_today today user_id s = (digests_since user_id (combine_min today) s \<noteq> [])"
  by (auto simp: already_sent_today_def digests_since_def Let_def find_None_iff filter_empty_conv)

lemma digest_each_step:
  "digest_each astimezone gen_id now today k (prefs # rest) s n
     = (if is_digest_time astimezone prefs now \<and> \<not> already_sent_today today (u_user_id prefs) s
        then digest_each astimezone gen_id now today (Suc k) rest
               (fst (send_digest (gen_id k) now today (u_user_id prefs) (u_timezone prefs) s)) (n + 1)
        else digest_each astimezone gen_id now today (Suc k) rest s n)"
proof -
  obtain s' sent where step:
    "send_digest (gen_id k) now today (u_user_id prefs) (u_timezone prefs) s = (s', sent)"
    by (cases "send_digest (gen_id k) now today (u_user_id prefs) (u_timezone prefs) s")
  with send_digest_sent [of "gen_id k" now today "u_user_id prefs" "u_timezone prefs" s]
  have sent by simp
  with step show ?thesis by simp
qed

lemma digest_each_added:
  "\<exists>added.
     notifications (fst (digest_each astimezone gen_id now today k ps s n)) = notifications s @ added
     \<and> (\<forall>x \<in> set added.
           n_type x = DAILY_DIGEST \<and> n_created_at x = now
           \<and> \<not> already_sent_today today (n_user_id x) s
           \<and> (\<exists>p \<in> set ps. u_user_id p = n_user_id x \<and> is_digest_time astimezone p now))"
proof (induction ps arbitrary: s k n)
  case Nil
  then show ?case by simp
next
  case (Cons prefs rest)
  show ?case
  proof (cases "is_digest_time astimezone prefs now \<and> \<not> already_sent_today today (u_user_id prefs) s")
    case False
    from Cons.IH [of "Suc k" s n] obtain added where
      "notifications (fst (digest_each astimezone gen_id now today (Suc k) rest s n))
         = notifications s @ added"
      "\<forall>x \<in> set added.
           n_type x = DAILY_DIGEST \<and> n_created_at x = now
           \<and> \<not> already_sent_today today (n_user_id x) s
           \<and> (\<exists>p \<in> set rest. u_user_id p = n_user_id x \<and> is_digest_time astimezone p now)"
      by blast
    with False show ?thesis
      unfolding digest_each_step by (intro exI [of _ added]) auto
  next
    case True
    let ?s' = "fst (send_digest (gen_id k) now today (u_user_id prefs) (u_timezone prefs) s)"
    from send_digest_adds [of "gen_id k" now today "u_user_id prefs" "u_timezone prefs" s]
    obtain row where row: "notifications ?s' = notifications s @ [row]"
      "n_user_id row = u_user_id prefs" "n_type row = DAILY_DIGEST" "n_created_at row = now"
      by blast
    have mono: "already_sent_today today u s \<Longrightarrow> already_sent_today today u ?s'" for u
      by (simp add: already_sent_today_iff digests_since_def row(1))
    from Cons.IH [of "Suc k" ?s' "n + 1"] obtain added where added:
      "notifications (fst (digest_each astimezone gen_id now today (Suc k) rest ?s' (n + 1)))
         = notifications ?s' @ added"
      "\<forall>x \<in> set added.
           n_type x = DAILY_DIGEST \<and> n_created_at x = now
           \<and> \<not> already_sent_today today (n_user_id x) ?s'
           \<and> (\<exists>p \<in> set rest. u_user_id p = n_user_id x \<and> is_digest_time astimezone p now)"
      by blast
    have "\<forall>x \<in> set (row # added).
           n_type x = DAILY_DIGEST \<and> n_created_at x = now
           \<and> \<not> already_sent_today today (n_user_id x) s
           \<and> (\<exists>p \<in> set (prefs # rest). u_user_id p = n_user_id x \<and> is_digest_time astimezone p now)"
      using added(2) row True mono by auto
    moreover have "notifications (fst (digest_each astimezone gen_id now today k (prefs # rest) s n))
                     = notifications s @ (row # added)"
      using True added(1) row(1) unfolding digest_each_step by simp
    ultimately show ?thesis by blast
  qed
qed

lemma digest_each_count:
  assumes "combine_min today \<le> now"
  shows "length (digests_since u (combine_min today)
                   (fst (digest_each astimezone gen_id now today k ps s n)))
           \<le> max 1 (length (digests_since u (combine_min today) s))"
proof (induction ps arbitrary: s k n)
  case Nil
  then show ?case by simp
next
  case (Cons prefs rest)
  show ?case
  proof (cases "is_digest_time astimezone prefs now \<and> \<not> already_sent_today today (u_user_id prefs) s")
    case False
    then have eq: "digest_each astimezone gen_id now today k (prefs # rest) s n
                     = digest_each astimezone gen_id now today (Suc k) rest s n"
      by (subst digest_each_step) auto
    show ?thesis unfolding eq by (rule Cons.IH)
  next
    case True
    let ?s' = "fst (send_digest (gen_id k) now today (u_user_id prefs) (u_timezone prefs) s)"
    from send_digest_adds [of "gen_id k" now today "u_user_id prefs" "u_timezone prefs" s]
    obtain row where row: "notifications ?s' = notifications s @ [row]"
      "n_user_id row = u_user_id prefs" "n_type row = DAILY_DIGEST" "n_created_at row = now"
      by blast
    from True have none: "digests_since (u_user_id prefs) (combine_min today) s = []"
      by (simp add: already_sent_today_iff)
    have "length (digests_since u (combine_min today) ?s')
            \<le> max 1 (length (digests_since u (combine_min today) s))"
    proof (cases "u = u_user_id prefs")
      case True
      with none row assms show ?thesis
        by (simp add: digests_since_def)
    next
      case False
      with row show ?thesis
        by (simp add: digests_since_def)
    qed
    moreover have "length (digests_since u (combine_min today)
                   (fst (digest_each astimezone gen_id now today (Suc k) rest ?s' (n + 1))))
           \<le> max 1 (length (digests_since u (combine_min today) ?s'))"
      by (rule Cons.IH)
    moreover have "digest_each astimezone gen_id now today k (prefs # rest) s n
                     = digest_each astimezone gen_id now today (Suc k) rest ?s' (n + 1)"
      using True by (subst digest_each_step) simp
    ultimately show ?thesis
      by simp
  qed
qed

lemma digest_ticks_count:
  assumes "\<forall>now \<in> set ticks. combine_min today \<le> now"
  shows "length (digests_since u (combine_min today) (digest_ticks astimezone ids today j ticks s))
           \<le> max 1 (length (digests_since u (combine_min today) s))"
  using assms
proof (induction ticks arbitrary: s j)
  case Nil
  then show ?case by simp
next
  case (Cons now later)
  let ?s' = "fst (process_daily_digests astimezone (ids j) now today s)"
  have "length (digests_since u (combine_min today) ?s')
          \<le> max 1 (length (digests_since u (combine_min today) s))"
    using Cons.prems unfolding process_daily_digests_def Let_def
    by (intro digest_each_count) simp
  moreover have "length (digests_since u (combine_min today)
                          (digest_ticks astimezone ids today (Suc j) later ?s'))
          \<le> max 1 (length (digests_since u (combine_min today) ?s'))"
    using Cons.prems by (intro Cons.IH) simp
  ultimately show ?case by simp
qed

text \<open>
  C7 (as stated) fails: the start of today is midnight UTC of the server's date, not the
  start of the user's local day. A digest of day 10 in Karachi, created at 01:00 local
  time, lies before midnight UTC of day 10, so the tick at 08:00 local time of the same
  local day creates a second one.
\<close>

theorem digest_local_day_counterexample:
  "is_digest_time astimezone_karachi karachi_prefs (combine_min 10 + 3 * usec_per_hour)
   \<and> start_of_local_day (5 * usec_per_hour) (combine_min 10 + 3 * usec_per_hour)
       \<le> n_created_at early_digest
   \<and> length (digests_since ''alice''
               (start_of_local_day (5 * usec_per_hour) (combine_min 10 + 3 * usec_per_hour))
               digested_db) = 1
   \<and> length (digests_since ''alice''
               (start_of_local_day (5 * usec_per_hour) (combine_min 10 + 3 * usec_per_hour))
               (fst (process_daily_digests astimezone_karachi sample_ids
                       (combine_min 10 + 3 * usec_per_hour) 10 digested_db))) = 2"
proof -
  have t: "is_digest_time astimezone_karachi karachi_prefs (combine_min 10 + 3 * usec_per_hour)"
    by (simp add: is_digest_time_def astimezone_karachi_def karachi_prefs_def hour_of_def
          combine_min_def usec_per_hour_def usec_per_day_def)
  have start: "start_of_local_day (5 * usec_per_hour) (combine_min 10 + 3 * usec_per_hour)
                 = combine_min 10 - 5 * usec_per_hour"
    by (simp add: start_of_local_day_def date_of_def combine_min_def usec_per_hour_def
          usec_per_day_def)
  have unsent: "\<not> already_sent_today 10 ''alice'' digested_db"
    by (simp add: already_sent_today_def Let_def digested_db_def quiet_db_def empty_db_def
          early_digest_def combine_min_def usec_per_hour_def usec_per_day_def)
  have run: "process_daily_digests astimezone_karachi sample_ids
               (combine_min 10 + 3 * usec_per_hour) 10 digested_db
             = (fst (send_digest (sample_ids 0) (combine_min 10 + 3 * usec_per_hour) 10 ''alice''
                       ''Asia/Karachi'' digested_db), 1)"
    unfolding process_daily_digests_def Let_def
    using t unsent
    by (simp del: digest_each.simps(2)
          add: digest_each_step digested_db_def quiet_db_def empty_db_def karachi_prefs_def)
  from send_digest_adds [of "sample_ids 0" "combine_min 10 + 3 * usec_per_hour" 10 "''alice''"
         "''Asia/Karachi''" digested_db]
  obtain row where row:
    "notifications (fst (send_digest (sample_ids 0) (combine_min 10 + 3 * usec_per_hour) 10
                           ''alice'' ''Asia/Karachi'' digested_db))
       = notifications digested_db @ [row]"
    "n_user_id row = ''alice''" "n_type row = DAILY_DIGEST"
    "n_created_at row = combine_min 10 + 3 * usec_per_hour"
    by blast
  have old: "notifications digested_db = [early_digest]"
    by (simp add: digested_db_def quiet_db_def empty_db_def)
  have p2: "start_of_local_day (5 * usec_per_hour) (combine_min 10 + 3 * usec_per_hour)
       \<le> n_created_at early_digest"
    unfolding start by (simp add: early_digest_def usec_per_hour_def)
  have p3: "length (digests_since ''alice''
               (start_of_local_day (5 * usec_per_hour) (combine_min 10 + 3 * usec_per_hour))
               digested_db) = 1"
    unfolding start by (simp add: digests_since_def old early_digest_def usec_per_hour_def)
  have p4: "length (digests_since ''alice''
               (start_of_local_day (5 * usec_per_hour) (combine_min 10 + 3 * usec_per_hour))
               (fst (process_daily_digests astimezone_karachi sample_ids
                       (combine_min 10 + 3 * usec_per_hour) 10 digested_db))) = 2"
  proof -
    have rows: "notifications (fst (process_daily_digests astimezone_karachi sample_ids
                       (combine_min 10 + 3 * usec_per_hour) 10 digested_db))
                  = [early_digest, row]"
      unfolding run using row(1) old by simp
    show ?thesis
      unfolding start digests_since_def rows
      by (simp add: row(2,3,4) early_digest_def usec_per_hour_def)
  qed
  from t p2 p3 p4 show ?thesis by (intro conjI)
qed

text \<open>
  C7, amended. A tick of the digest job only appends digest notifications, each for a user
  whose preferences enable the digest with a digest time whose hour equals the local hour
  of the tick's instant in the user's time zone, and none for a user who already has a
  digest created at or after midnight UTC of the server's current date. So the ticks that
  run while the server's date is the same, each at or after that midnight, leave at most
  one digest of that date for a user who had none.
\<close>

theorem digest_once_per_server_day:
  "(\<exists>added.
      notifications (fst (process_daily_digests astimezone gen_id now today s))
        = notifications s @ added
      \<and> (\<forall>x \<in> set added.
            n_type x = DAILY_DIGEST
            \<and> \<not> already_sent_today today (n_user_id x) s
            \<and> (\<exists>p \<in> set (user_prefs s).
                  u_daily_digest_enabled p \<and> u_user_id p = n_user_id x
                  \<and> (\<exists>t local. u_daily_digest_time p = Some t
                         \<and> astimezone (u_timezone p) now = Some local
                         \<and> hour_of local = hour t))))
   \<and> already_sent_today today u s = (digests_since u (combine_min today) s \<noteq> [])
   \<and> ((\<forall>tick \<in> set ticks. combine_min today \<le> tick) \<longrightarrow>
        length (digests_since u (combine_min today) (digest_ticks astimezone ids today j ticks s))
          \<le> max 1 (length (digests_since u (combine_min today) s)))"
proof (intro conjI impI)
  let ?ps = "filter (\<lambda>row. u_daily_digest_enabled row \<and> u_daily_digest_time row \<noteq> None)
                    (user_prefs s)"
  from digest_each_added [of astimezone gen_id now today 0 ?ps s 0]
  obtain added where added:
    "notifications (fst (digest_each astimezone gen_id now today 0 ?ps s 0))
       = notifications s @ added"
    "\<forall>x \<in> set added.
           n_type x = DAILY_DIGEST \<and> n_created_at x = now
           \<and> \<not> already_sent_today today (n_user_id x) s
           \<and> (\<exists>p \<in> set ?ps. u_user_id p = n_user_id x \<and> is_digest_time astimezone p now)"
    by blast
  have "\<forall>x \<in> set added.
            n_type x = DAILY_DIGEST
            \<and> \<not> already_sent_today today (n_user_id x) s
            \<and> (\<exists>p \<in> set (user_prefs s).
                  u_daily_digest_enabled p \<and> u_user_id p = n_user_id x
                  \<and> (\<exists>t local. u_daily_digest_time p = Some t
                         \<and> astimezone (u_timezone p) now = Some local
                         \<and> hour_of local = hour t))"
  proof
    fix x assume "x \<in> set added"
    with added(2) obtain p where p: "n_type x = DAILY_DIGEST"
      "\<not> already_sent_today today (n_user_id x) s" "p \<in> set ?ps" "u_user_id p = n_user_id x"
      "is_digest_time astimezone p now"
      by blast
    from p(5) have "\<exists>t local. u_daily_digest_time p = Some t
                         \<and> astimezone (u_timezone p) now = Some local \<and> hour_of local = hour t"
      by (auto simp: is_digest_time_def split: option.splits)
    with p show "n_type x = DAILY_DIGEST
            \<and> \<not> already_sent_today today (n_user_id x) s
            \<and> (\<exists>p \<in> set (user_prefs s).
                  u_daily_digest_enabled p \<and> u_user_id p = n_user_id x
                  \<and> (\<exists>t local. u_daily_digest_time p = Some t
                         \<and> astimezone (u_timezone p) now = Some local
                         \<and> hour_of local = hour t))"
      by auto
  qed
  with added(1) show "\<exists>added.
      notifications (fst (process_daily_digests astimezone gen_id now today s))
        = notifications s @ added
      \<and> (\<forall>x \<in> set added.
            n_type x = DAILY_DIGEST
            \<and> \<not> already_sent_today today (n_user_id x) s
            \<and> (\<exists>p \<in> set (user_prefs s).
                  u_daily_digest_enabled p \<and> u_user_id p = n_user_id x
                  \<and> (\<exists>t local. u_daily_digest_time p = Some t
                         \<and> astimezone (u_timezone p) now = Some local
                         \<and> hour_of local = hour t)))"
    unfolding process_daily_digests_def Let_def by blast
next
  show "already_sent_today today u s = (digests_since u (combine_min today) s \<noteq> [])"
    by (rule already_sent_today_iff)
next
  assume "\<forall>tick \<in> set ticks. combine_min today \<le> tick"
  then show "length (digests_since u (combine_min today)
                       (digest_ticks astimezone ids today j ticks s))
          \<le> max 1 (length (digests_since u (combine_min today) s))"
    by (rule digest_ticks_count)
qed

theorem digest_once_per_server_day_witness:
  "combine_min 10 \<le> combine_min 10 + 3 * usec_per_hour
   \<and> combine_min 10 \<le> combine_min 10 + 3 * usec_per_hour + timedelta_minutes 1
   \<and> digests_since ''alice'' (combine_min 10) quiet_db = []
   \<and> length (digests_since ''alice'' (combine_min 10)
               (digest_ticks astimezone_karachi tick_ids 10 0
                  [combine_min 10 + 3 * usec_per_hour,
                   combine_min 10 + 3 * usec_per_hour + timedelta_minutes 1] quiet_db)) \<le> 1"
proof -
  have t1: "combine_min 10 \<le> combine_min 10 + 3 * usec_per_hour"
    by (simp add: usec_per_hour_def)
  have t2: "combine_min 10 \<le> combine_min 10 + 3 * usec_per_hour + timedelta_minutes 1"
    by (simp add: usec_per_hour_def timedelta_minutes_def)
  have none: "digests_since ''alice'' (combine_min 10) quiet_db = []"
    by (simp add: digests_since_def quiet_db_def empty_db_def)
  have ticks: "\<forall>tick \<in> set [combine_min 10 + 3 * usec_per_hour,
                              combine_min 10 + 3 * usec_per_hour + timedelta_minutes 1].
                 combine_min 10 \<le> tick"
    using t1 t2 by simp
  have "length (digests_since ''alice'' (combine_min 10)
               (digest_ticks astimezone_karachi tick_ids 10 0
                  [combine_min 10 + 3 * usec_per_hour,
                   combine_min 10 + 3 * usec_per_hour + timedelta_minutes 1] quiet_db))
          \<le> max 1 (length (digests_since ''alice'' (combine_min 10) quiet_db))"
    using digest_once_per_server_day [where today = 10 and u = "''alice''" and s = quiet_db
            and astimezone = astimezone_karachi and ids = tick_ids and j = 0
            and ticks = "[combine_min 10 + 3 * usec_per_hour,
                          combine_min 10 + 3 * usec_per_hour + timedelta_minutes 1]",
            THEN conjunct2, THEN conjunct2, THEN mp, OF ticks]
    by simp
  with none have "length (digests_since ''alice'' (combine_min 10)
               (digest_ticks astimezone_karachi tick_ids 10 0
                  [combine_min 10 + 3 * usec_per_hour,
                   combine_min 10 + 3 * usec_per_hour + timedelta_minutes 1] quiet_db)) \<le> 1"
    by simp
  with t1 t2 none show ?thesis by (intro conjI)
qed

section \<open>Editing one occurrence of a series\<close>

lemma assign_tags_result:
  "assign_tags user_id todo_id tag_ids s = (s', r) \<Longrightarrow>
     (r = Inl IntegrityError \<and> s' = s)
     \<or> (r = Inr ()
         \<and> s' = s\<lparr>todo_tags := todo_tags s @
                    map (\<lambda>tag_id. \<lparr>tt_todo_id = todo_id, tt_tag_id = tag_id\<rparr>)
                        (filter (\<lambda>tag_id. find (\<lambda>row. g_id row = tag_id \<and> g_user_id row = user_id)
                                             (tags s) \<noteq> None) tag_ids)\<rparr>)"
  by (auto simp: assign_tags_def Let_def split: if_splits)

lemma db_same:
  "s = s\<lparr>todo_occurrences := todo_occurrences s @ [],
         todos := map (\<lambda>row. if t_id row = todo_id
                             then row\<lparr>t_occurrences_generated := t_occurrences_generated row + 0\<rparr>
                             else row) (todos s)\<rparr>"
  by (simp add: map_idI)

lemma gen_occurrences_frame:
  "\<exists>c added.
     fst (gen_occurrences rrulestr strftime gen_id now user_id todo_id rrule start_date
            max_occurrences s)
       = s\<lparr>todo_occurrences := todo_occurrences s @ added,
            todos := map (\<lambda>row. if t_id row = todo_id
                                then row\<lparr>t_occurrences_generated := t_occurrences_generated row + c\<rparr>
                                else row) (todos s)\<rparr>"
proof -
  let ?res = "gen_occurrences rrulestr strftime gen_id now user_id todo_id rrule start_date
                max_occurrences s"
  let ?cap = "case max_occurrences of None \<Rightarrow> 30 | Some n \<Rightarrow> n"
  let ?gen = "generate_occurrences rrulestr strftime rrule start_date (Some start_date) None
                (Some ?cap)"
  show ?thesis
  proof (cases ?gen)
    case (Inl e)
    then have "fst ?res = s"
      by (simp add: gen_occurrences_def Let_def)
    then show ?thesis
      using db_same [of s todo_id] by (intro exI [of _ 0] exI [of _ "[]"]) simp
  next
    case (Inr dates)
    let ?fresh = "filter (\<lambda>d. d \<notin> set (map o_occurrence_date
                   (filter (\<lambda>row. o_parent_todo_id row = todo_id) (todo_occurrences s)))) dates"
    let ?added = "new_occurrences gen_id now user_id todo_id 0 ?fresh"
    show ?thesis
    proof (cases "0 < length ?fresh \<and> uq_occurrence_date (todo_occurrences s @ ?added)")
      case True
      with Inr have "fst ?res
        = s\<lparr>todo_occurrences := todo_occurrences s @ ?added,
             todos := map (\<lambda>row. if t_id row = todo_id
                                then row\<lparr>t_occurrences_generated :=
                                           t_occurrences_generated row + int (length ?fresh)\<rparr>
                                else row) (todos s)\<rparr>"
        by (simp add: gen_occurrences_def Let_def)
      then show ?thesis by blast
    next
      case False
      with Inr have "fst ?res = s"
        by (auto simp: gen_occurrences_def Let_def)
      then show ?thesis
        using db_same [of s todo_id] by (intro exI [of _ 0] exI [of _ "[]"]) simp
    qed
  qed
qed

lemma ensure_future_occurrences_frame:
  "\<exists>c added.
     fst (ensure_future_occurrences rrulestr strftime gen_id now today user_id todo_id min_future s)
       = s\<lparr>todo_occurrences := todo_occurrences s @ added,
            todos := map (\<lambda>row. if t_id row = todo_id
                                then row\<lparr>t_occurrences_generated := t_occurrences_generated row + c\<rparr>
                                else row) (todos s)\<rparr>"
proof -
  let ?res = "ensure_future_occurrences rrulestr strftime gen_id now today user_id todo_id
                min_future s"
  have "?res = (s, Inr 0)
        \<or> (\<exists>rrule d cap.
              ?res = gen_occurrences rrulestr strftime gen_id now user_id todo_id rrule d cap s)"
    by (simp add: ensure_future_occurrences_def Let_def split: option.splits) blast
  then show ?thesis
  proof
    assume "?res = (s, Inr 0)"
    then have "fst ?res = s" by simp
    then show ?thesis
      using db_same [of s todo_id] by (intro exI [of _ 0] exI [of _ "[]"]) simp
  next
    assume "\<exists>rrule d cap.
              ?res = gen_occurrences rrulestr strftime gen_id now user_id todo_id rrule d cap s"
    then obtain rrule d cap where
      "?res = gen_occurrences rrulestr strftime gen_id now user_id todo_id rrule d cap s"
      by blast
    then show ?thesis
      using gen_occurrences_frame [of rrulestr strftime gen_id now user_id todo_id rrule d cap s]
      by simp
  qed
qed

lemma get_current_occurrence_row:
  assumes "get_current_occurrence today user_id todo_id s = Some occ"
  shows "occ \<in> set (todo_occurrences s)"
proof (cases "find (\<lambda>row. o_parent_todo_id row = todo_id \<and> o_user_id row = user_id
                       \<and> o_occurrence_date row = today) (todo_occurrences s)")
  case (Some today_occurrence)
  with assms have "today_occurrence = occ"
    by (simp add: get_current_occurrence_def)
  with Some show ?thesis
    by (auto simp: find_Some_iff)
next
  case None
  let ?later = "filter (\<lambda>row. o_parent_todo_id row = todo_id \<and> o_user_id row = user_id
                                \<and> o_status row = OccPending \<and> o_occurrence_date row > today)
                       (todo_occurrences s)"
  from None assms obtain rest where "sort_key o_occurrence_date ?later = occ # rest"
    by (auto simp: get_current_occurrence_def split: list.splits)
  then have "occ \<in> set (sort_key o_occurrence_date ?later)"
    by simp
  then show ?thesis
    by simp
qed

lemma find_append_first:
  "find P xs = Some x \<Longrightarrow> find P (xs @ ys) = Some x"
  by (induction xs) auto

lemma this_only_tags_result:
  assumes "this_only_tags user_id new_id todo data s1 = (s2, Inr ())"
  shows "\<exists>tag_ids.
           s2 = s1\<lparr>todo_tags := todo_tags s1 @
                     map (\<lambda>tag_id. \<lparr>tt_todo_id = new_id, tt_tag_id = tag_id\<rparr>)
                         (filter (\<lambda>tag_id. find (\<lambda>row. g_id row = tag_id \<and> g_user_id row = user_id)
                                              (tags s1) \<noteq> None) tag_ids)\<rparr>
           \<and> (upd_tag_ids data = None \<longrightarrow> tag_ids = todo_tag_ids (t_id todo) s1)"
proof (cases "upd_tag_ids data")
  case (Some tag_ids)
  with assms have "assign_tags user_id new_id tag_ids s1 = (s2, Inr ())"
    by (simp add: this_only_tags_def)
  from assign_tags_result [OF this] Some show ?thesis
    by auto
next
  case None
  show ?thesis
  proof (cases "todo_tag_ids (t_id todo) s1 = []")
    case True
    with None assms have "s2 = s1"
      by (simp add: this_only_tags_def)
    with True None show ?thesis
      by (intro exI [of _ "[]"]) simp
  next
    case False
    with None assms have "assign_tags user_id new_id (todo_tag_ids (t_id todo) s1) s1 = (s2, Inr ())"
      by (simp add: this_only_tags_def)
    from assign_tags_result [OF this] None show ?thesis
      by auto
  qed
qed

text \<open>
  C6 (as stated) fails for the completed flag: it is not merged from the head. A this_only
  edit with an empty patch of a head that is marked completed returns a todo that is not
  completed.
\<close>

theorem update_this_only_counterexample:
  "snd (update_this_only rrulestr_daily sample_strftime ''new1'' sample_ids 900 20513 ''alice''
          (series_todo\<lparr>t_completed := True\<rparr>) empty_patch done_series_db)
     = Inr \<lparr>t_id = ''new1'', t_title = ''Doctor'', t_description = None, t_completed = False,
            t_user_id = ''alice'', t_created_at = 900, t_updated_at = 900,
            t_due_date = Some (combine_min 20510 + 9 * usec_per_hour), t_priority = Some High,
            t_is_recurring = False,
            t_rrule = None, t_recurrence_end_date = None, t_recurrence_count = None,
            t_occurrences_generated = 0\<rparr>"
  by (simp add: update_this_only_def this_only_todo_def this_only_tags_def todo_tag_ids_def
        get_current_occurrence_def Let_def done_series_db_def empty_db_def series_todo_def
        empty_patch_def)

text \<open>
  C6, amended. A this_only edit of a head that the caller owns, with a fresh id for the new
  todo, returns (when it returns) a new non-recurring todo of the caller, stored, whose
  title, description and priority are the patch's where given and the head's otherwise,
  whose completed flag is the patch's where given and false otherwise, and whose due date
  is the patch's if given, else the current occurrence's date (read back as its midnight)
  if there is one, else the head's. When the patch omits tag_ids the new todo gets the
  head's tags that are tags of the caller, all of them when every tag of the head is. The
  current occurrence, when there is one, is stored as skipped, and the head keeps every
  field except the counter of generated occurrences.
\<close>

theorem update_this_only_result:
  assumes head: "get_todo_by_id user_id (t_id todo) s = Some todo"
    and fresh: "new_id \<noteq> t_id todo" "new_id \<notin> tt_todo_id ` set (todo_tags s)"
    and ret: "update_this_only rrulestr strftime new_id gen_id now today user_id todo data s
                = (s', Inr created)"
  shows
  "created =
     \<lparr>t_id = new_id,
      t_title = (case upd_title data of Some v \<Rightarrow> v | None \<Rightarrow> t_title todo),
      t_description = (case upd_description data of Some v \<Rightarrow> Some v | None \<Rightarrow> t_description todo),
      t_completed = (case upd_completed data of Some v \<Rightarrow> v | None \<Rightarrow> False),
      t_user_id = user_id, t_created_at = now, t_updated_at = now,
      t_due_date =
        (case upd_due_date data of
           Some v \<Rightarrow> Some v
         | None \<Rightarrow>
             (case get_current_occurrence today user_id (t_id todo) s of
                Some occ \<Rightarrow> Some (combine_min (o_occurrence_date occ))
              | None \<Rightarrow> t_due_date todo)),
      t_priority = (case upd_priority data of Some v \<Rightarrow> Some v | None \<Rightarrow> t_priority todo),
      t_is_recurring = False, t_rrule = None, t_recurrence_end_date = None,
      t_recurrence_count = None, t_occurrences_generated = 0\<rparr>
   \<and> created \<in> set (todos s')
   \<and> (upd_tag_ids data = None \<longrightarrow>
        todo_tag_ids new_id s'
          = filter (\<lambda>tag_id. find (\<lambda>row. g_id row = tag_id \<and> g_user_id row = user_id) (tags s)
                             \<noteq> None)
                   (todo_tag_ids (t_id todo) s))
   \<and> (upd_tag_ids data = None
        \<and> (\<forall>tag_id \<in> set (todo_tag_ids (t_id todo) s).
              find (\<lambda>row. g_id row = tag_id \<and> g_user_id row = user_id) (tags s) \<noteq> None) \<longrightarrow>
        todo_tag_ids new_id s' = todo_tag_ids (t_id todo) s)
   \<and> (\<forall>occ. get_current_occurrence today user_id (t_id todo) s = Some occ \<longrightarrow>
          occ\<lparr>o_status := OccSkipped, o_updated_at := now\<rparr> \<in> set (todo_occurrences s'))
   \<and> (\<exists>generated.
        get_todo_by_id user_id (t_id todo) s'
          = Some (todo\<lparr>t_occurrences_generated := generated\<rparr>))"
proof -
  let ?cur = "get_current_occurrence today user_id (t_id todo) s"
  let ?new = "this_only_todo new_id now user_id todo data ?cur"
  let ?s1 = "s\<lparr>todos := todos s @ [?new]\<rparr>"
  let ?owned = "\<lambda>tag_id. find (\<lambda>row. g_id row = tag_id \<and> g_user_id row = user_id) (tags s) \<noteq> None"
  obtain s2 r where tg: "this_only_tags user_id new_id todo data ?s1 = (s2, r)"
    by (cases "this_only_tags user_id new_id todo data ?s1")
  from ret tg have r: "r = Inr ()"
    by (cases r) (simp_all add: update_this_only_def Let_def)
  from ret tg r have created: "created = ?new"
    by (auto simp: update_this_only_def Let_def split: option.splits prod.splits sum.splits)
  from this_only_tags_result [OF tg [unfolded r]] obtain tag_ids where
    s2: "s2 = ?s1\<lparr>todo_tags := todo_tags s @
                      map (\<lambda>tag_id. \<lparr>tt_todo_id = new_id, tt_tag_id = tag_id\<rparr>)
                          (filter ?owned tag_ids)\<rparr>"
    and ids: "upd_tag_ids data = None \<longrightarrow> tag_ids = todo_tag_ids (t_id todo) s"
    by (auto simp: todo_tag_ids_def)
  have final: "\<exists>c added skipped.
      s' = s2\<lparr>todo_occurrences := skipped @ added,
              todos := map (\<lambda>row. if t_id row = t_id todo
                                  then row\<lparr>t_occurrences_generated := t_occurrences_generated row + c\<rparr>
                                  else row) (todos s2)\<rparr>
      \<and> (\<forall>occ. ?cur = Some occ \<longrightarrow>
             skipped = map (\<lambda>row. if o_id row = o_id occ
                                   then row\<lparr>o_status := OccSkipped, o_updated_at := now\<rparr>
                                   else row) (todo_occurrences s2))"
  proof (cases ?cur)
    case None
    with ret tg r have "s' = s2"
      by (simp add: update_this_only_def Let_def)
    with None db_same [of s2 "t_id todo"] show ?thesis
      by (intro exI [of _ 0] exI [of _ "[]"] exI [of _ "todo_occurrences s2"]) simp
  next
    case (Some occ)
    let ?s3 = "set_occurrence (o_id occ)
                 (\<lambda>row. row\<lparr>o_status := OccSkipped, o_updated_at := now\<rparr>) s2"
    from ret tg r Some have
      "s' = fst (ensure_future_occurrences rrulestr strftime gen_id now today user_id
                   (t_id todo) None ?s3)"
      by (auto simp: update_this_only_def Let_def split: prod.splits sum.splits)
    with ensure_future_occurrences_frame [of rrulestr strftime gen_id now today user_id
           "t_id todo" None ?s3]
    obtain c added where
      "s' = ?s3\<lparr>todo_occurrences := todo_occurrences ?s3 @ added,
                todos := map (\<lambda>row. if t_id row = t_id todo
                                    then row\<lparr>t_occurrences_generated := t_occurrences_generated row + c\<rparr>
                                    else row) (todos ?s3)\<rparr>"
      by auto
    with Some show ?thesis
      by (intro exI [of _ c] exI [of _ added] exI [of _ "todo_occurrences ?s3"])
         (simp add: set_occurrence_def)
  qed
  then obtain c added skipped where
    s': "s' = s2\<lparr>todo_occurrences := skipped @ added,
              todos := map (\<lambda>row. if t_id row = t_id todo
                                  then row\<lparr>t_occurrences_generated := t_occurrences_generated row + c\<rparr>
                                  else row) (todos s2)\<rparr>"
    and skipped: "\<forall>occ. ?cur = Some occ \<longrightarrow>
             skipped = map (\<lambda>row. if o_id row = o_id occ
                                   then row\<lparr>o_status := OccSkipped, o_updated_at := now\<rparr>
                                   else row) (todo_occurrences s2)"
    by blast
  let ?bump = "\<lambda>row. if t_id row = t_id todo
                      then row\<lparr>t_occurrences_generated := t_occurrences_generated row + c\<rparr>
                      else row"
  have new_id: "t_id ?new = new_id"
    by (simp add: this_only_todo_def Let_def)
  have todos': "todos s' = map ?bump (todos s) @ [?new]"
    using fresh(1) new_id by (simp add: s' s2)
  have tags': "todo_tags s' = todo_tags s @
                 map (\<lambda>tag_id. \<lparr>tt_todo_id = new_id, tt_tag_id = tag_id\<rparr>) (filter ?owned tag_ids)"
    by (simp add: s' s2)
  have none_before: "filter (\<lambda>row. tt_todo_id row = new_id) (todo_tags s) = []"
    using fresh(2) by (auto simp: filter_empty_conv)
  have new_tags: "todo_tag_ids new_id s' = filter ?owned tag_ids"
    by (simp add: todo_tag_ids_def tags' none_before comp_def)
  have c1: "created =
     \<lparr>t_id = new_id,
      t_title = (case upd_title data of Some v \<Rightarrow> v | None \<Rightarrow> t_title todo),
      t_description = (case upd_description data of Some v \<Rightarrow> Some v | None \<Rightarrow> t_description todo),
      t_completed = (case upd_completed data of Some v \<Rightarrow> v | None \<Rightarrow> False),
      t_user_id = user_id, t_created_at = now, t_updated_at = now,
      t_due_date =
        (case upd_due_date data of
           Some v \<Rightarrow> Some v
         | None \<Rightarrow>
             (case ?cur of
                Some occ \<Rightarrow> Some (combine_min (o_occurrence_date occ))
              | None \<Rightarrow> t_due_date todo)),
      t_priority = (case upd_priority data of Some v \<Rightarrow> Some v | None \<Rightarrow> t_priority todo),
      t_is_recurring = False, t_rrule = None, t_recurrence_end_date = None,
      t_recurrence_count = None, t_occurrences_generated = 0\<rparr>"
    by (simp add: created this_only_todo_def Let_def)
  have c2: "created \<in> set (todos s')"
    by (simp add: created todos')
  have c3: "upd_tag_ids data = None \<longrightarrow>
        todo_tag_ids new_id s' = filter ?owned (todo_tag_ids (t_id todo) s)"
    using ids new_tags by simp
  have c4: "upd_tag_ids data = None
        \<and> (\<forall>tag_id \<in> set (todo_tag_ids (t_id todo) s). ?owned tag_id) \<longrightarrow>
        todo_tag_ids new_id s' = todo_tag_ids (t_id todo) s"
    using c3 by (auto simp: filter_id_conv)
  have c5: "\<forall>occ. ?cur = Some occ \<longrightarrow>
          occ\<lparr>o_status := OccSkipped, o_updated_at := now\<rparr> \<in> set (todo_occurrences s')"
  proof (intro allI impI)
    fix occ assume cur: "?cur = Some occ"
    then have "occ \<in> set (todo_occurrences s)"
      by (rule get_current_occurrence_row)
    then have "occ \<in> set (todo_occurrences s2)"
      by (simp add: s2)
    then have "occ\<lparr>o_status := OccSkipped, o_updated_at := now\<rparr> \<in> set skipped"
      using skipped cur by (auto simp: image_iff intro!: bexI [of _ occ])
    then show "occ\<lparr>o_status := OccSkipped, o_updated_at := now\<rparr> \<in> set (todo_occurrences s')"
      by (simp add: s')
  qed
  have "find (\<lambda>row. t_id row = t_id todo \<and> t_user_id row = user_id) (map ?bump (todos s))
          = map_option ?bump (find (\<lambda>row. t_id row = t_id todo \<and> t_user_id row = user_id) (todos s))"
    by (rule find_map_same) simp
  with head have "find (\<lambda>row. t_id row = t_id todo \<and> t_user_id row = user_id) (map ?bump (todos s))
                    = Some (todo\<lparr>t_occurrences_generated := t_occurrences_generated todo + c\<rparr>)"
    by (simp add: get_todo_by_id_def)
  then have "get_todo_by_id user_id (t_id todo) s'
               = Some (todo\<lparr>t_occurrences_generated := t_occurrences_generated todo + c\<rparr>)"
    unfolding get_todo_by_id_def todos' by (rule find_append_first)
  then have c6: "\<exists>generated.
        get_todo_by_id user_id (t_id todo) s'
          = Some (todo\<lparr>t_occurrences_generated := generated\<rparr>)"
    by blast
  from c1 c2 c3 c4 c5 c6 show ?thesis
    by (intro conjI)
qed

lemma this_only_sample_run:
  "snd (update_this_only rrulestr_daily sample_strftime ''new1'' sample_ids 900 20513 ''alice''
          series_todo title_patch tagged_series_db)
     = Inr \<lparr>t_id = ''new1'', t_title = ''Doctor - rescheduled'', t_description = None,
            t_completed = False, t_user_id = ''alice'', t_created_at = 900, t_updated_at = 900,
            t_due_date = Some (combine_min 20513), t_priority = Some High, t_is_recurring = False,
            t_rrule = None, t_recurrence_end_date = None, t_recurrence_count = None,
            t_occurrences_generated = 0\<rparr>"
  by (simp add: update_this_only_def this_only_todo_def this_only_tags_def assign_tags_def
        todo_tag_ids_def get_current_occurrence_def set_occurrence_def
        ensure_future_occurrences_def get_todo_by_id_def gen_occurrences_def
        generate_occurrences_def parse_rule_def rrulestr_daily_def uq_occurrence_date_def
        add_days_def timedelta_days_def Let_def title_patch_def empty_patch_def tagged_series_db_def
        series_db_def empty_db_def series_todo_def series_occurrence_def)

theorem update_this_only_result_witness:
  "get_todo_by_id ''alice'' (t_id series_todo) tagged_series_db = Some series_todo
   \<and> ''new1'' \<noteq> t_id series_todo
   \<and> ''new1'' \<notin> tt_todo_id ` set (todo_tags tagged_series_db)
   \<and> snd (update_this_only rrulestr_daily sample_strftime ''new1'' sample_ids 900 20513 ''alice''
          series_todo title_patch tagged_series_db)
       = Inr \<lparr>t_id = ''new1'', t_title = ''Doctor - rescheduled'', t_description = None,
            t_completed = False, t_user_id = ''alice'', t_created_at = 900, t_updated_at = 900,
            t_due_date = Some (combine_min 20513), t_priority = Some High, t_is_recurring = False,
            t_rrule = None, t_recurrence_end_date = None, t_recurrence_count = None,
            t_occurrences_generated = 0\<rparr>
   \<and> todo_tag_ids ''new1''
        (fst (update_this_only rrulestr_daily sample_strftime ''new1'' sample_ids 900 20513 ''alice''
                series_todo title_patch tagged_series_db)) = [''work'']
   \<and> (series_occurrence ''o2'' 20513 OccPending)\<lparr>o_status := OccSkipped, o_updated_at := 900\<rparr>
       \<in> set (todo_occurrences
                (fst (update_this_only rrulestr_daily sample_strftime ''new1'' sample_ids 900 20513
                        ''alice'' series_todo title_patch tagged_series_db)))"
proof -
  let ?run = "update_this_only rrulestr_daily sample_strftime ''new1'' sample_ids 900 20513 ''alice''
                series_todo title_patch tagged_series_db"
  let ?new = "\<lparr>t_id = ''new1'', t_title = ''Doctor - rescheduled'', t_description = None,
            t_completed = False, t_user_id = ''alice'', t_created_at = 900, t_updated_at = 900,
            t_due_date = Some (combine_min 20513), t_priority = Some High, t_is_recurring = False,
            t_rrule = None, t_recurrence_end_date = None, t_recurrence_count = None,
            t_occurrences_generated = 0\<rparr>"
  have tid: "t_id series_todo = ''series''"
    by (simp add: series_todo_def)
  have head: "get_todo_by_id ''alice'' (t_id series_todo) tagged_series_db = Some series_todo"
    by (simp add: get_todo_by_id_def tagged_series_db_def series_db_def empty_db_def
          series_todo_def)
  have f1: "''new1'' \<noteq> t_id series_todo"
    by (simp add: tid)
  have f2: "''new1'' \<notin> tt_todo_id ` set (todo_tags tagged_series_db)"
    by (simp add: tagged_series_db_def)
  have ret: "?run = (fst ?run, Inr ?new)"
    using this_only_sample_run by (simp add: prod_eq_iff)
  have cur: "get_current_occurrence 20513 ''alice'' (t_id series_todo) tagged_series_db
               = Some (series_occurrence ''o2'' 20513 OccPending)"
    by (simp add: tid get_current_occurrence_def tagged_series_db_def series_db_def empty_db_def
          series_occurrence_def)
  have patch: "upd_tag_ids title_patch = None"
    by (simp add: title_patch_def empty_patch_def)
  have head_tags: "todo_tag_ids (t_id series_todo) tagged_series_db = [''work'']"
    by (simp add: tid todo_tag_ids_def tagged_series_db_def)
  have owned: "\<forall>tag_id \<in> set (todo_tag_ids (t_id series_todo) tagged_series_db).
                 find (\<lambda>row. g_id row = tag_id \<and> g_user_id row = ''alice'') (tags tagged_series_db)
                   \<noteq> None"
    unfolding head_tags by (simp add: tagged_series_db_def)
  note t = update_this_only_result [OF head f1 f2 ret]
  have p5: "todo_tag_ids ''new1'' (fst ?run) = todo_tag_ids (t_id series_todo) tagged_series_db"
    using t [THEN conjunct2, THEN conjunct2, THEN conjunct2, THEN conjunct1] patch owned
    by blast
  have p6: "(series_occurrence ''o2'' 20513 OccPending)\<lparr>o_status := OccSkipped, o_updated_at := 900\<rparr>
              \<in> set (todo_occurrences (fst ?run))"
    using t [THEN conjunct2, THEN conjunct2, THEN conjunct2, THEN conjunct2, THEN conjunct1,
             rule_format, OF cur] .
  from head f1 f2 this_only_sample_run p5 [unfolded head_tags] p6 show ?thesis
    by (intro conjI)
qed

end
